theory Spec2Isabelle
  imports Main
begin

section \<open>The dual-mode rate limiter of SplitStream\<close>

text \<open>
  A shallow embedding of the rate-limiter module (\<^verbatim>\<open>api/rateLimiter.js\<close> in its
  dual-namespace version). JavaScript numbers that hold millisecond timestamps and request
  counts are integers far below \<open>2^53\<close>, so they are modelled as \<^typ>\<open>int\<close>. Strings are
  \<^typ>\<open>string\<close>: header values reach Node as Latin-1 text, one character per byte.
  Module-level variables become the fields of one state record that every function takes
  and returns; \<^verbatim>\<open>Date.now()\<close> is the argument \<open>now\<close>; exceptions are values of a sum type.
\<close>

subsection \<open>Configuration: \<^verbatim>\<open>parseInt(process.env.X, 10) || default\<close>\<close>

record env =
  RATE_LIMIT_PER_HOUR :: "string option"
  HEALTH_CHECK_RATE_LIMIT_PER_HOUR :: "string option"
  UPSTASH_REDIS_REST_URL :: "string option"
  UPSTASH_REDIS_REST_TOKEN :: "string option"

text \<open>White space as \<^verbatim>\<open>String.prototype.trim\<close> and \<^verbatim>\<open>parseInt\<close> strip it, within Latin-1:
  TAB, LF, VT, FF, CR, SPACE and NBSP.\<close>

definition isWhiteSpace :: "char \<Rightarrow> bool" where
  "isWhiteSpace c = (of_char c \<in> {9::nat, 10, 11, 12, 13, 32, 160})"

definition isDigit :: "char \<Rightarrow> bool" where
  "isDigit c = (48 \<le> (of_char c :: nat) \<and> (of_char c :: nat) \<le> 57)"

definition digitValue :: "char \<Rightarrow> nat" where
  "digitValue c = of_char c - 48"

text \<open>\<^verbatim>\<open>parseInt(s, 10)\<close>: skip leading white space, read an optional sign, then the
  longest prefix of decimal digits; no digit at all is \<^verbatim>\<open>NaN\<close>, here \<open>None\<close>. (Beyond
  \<open>2^53\<close> JavaScript rounds; the model keeps the exact integer.)\<close>

definition parseInt :: "string \<Rightarrow> int option" where
  "parseInt inputString =
     (let S = dropWhile isWhiteSpace inputString;
          sign = (if S \<noteq> [] \<and> hd S = CHR ''-'' then - 1 else 1 :: int);
          S' = (if S \<noteq> [] \<and> (hd S = CHR ''+'' \<or> hd S = CHR ''-'') then tl S else S);
          Z = takeWhile isDigit S'
      in if Z = [] then None
         else Some (sign * int (foldl (\<lambda>a c. 10 * a + digitValue c) 0 Z)))"

text \<open>An unset variable is \<^verbatim>\<open>undefined\<close>, which \<^verbatim>\<open>parseInt\<close> first turns into the string
  \<^verbatim>\<open>"undefined"\<close>.\<close>

definition parseIntEnv :: "string option \<Rightarrow> int option" where
  "parseIntEnv v = parseInt (case v of None \<Rightarrow> ''undefined'' | Some s \<Rightarrow> s)"

text \<open>\<^verbatim>\<open>n || d\<close> on numbers: \<^verbatim>\<open>NaN\<close> and zero are falsy, every other number is kept.\<close>

definition orDefault :: "int option \<Rightarrow> int \<Rightarrow> int" where
  "orDefault n d = (case n of None \<Rightarrow> d | Some k \<Rightarrow> if k = 0 then d else k)"

definition RATE_LIMIT_WINDOW :: int where
  "RATE_LIMIT_WINDOW = 60 * 60 * 1000"

definition PROCESSING_RATE_LIMIT_MAX_REQUESTS :: "env \<Rightarrow> int" where
  "PROCESSING_RATE_LIMIT_MAX_REQUESTS e = orDefault (parseIntEnv (RATE_LIMIT_PER_HOUR e)) 10"

definition HEALTH_CHECK_RATE_LIMIT_MAX_REQUESTS :: "env \<Rightarrow> int" where
  "HEALTH_CHECK_RATE_LIMIT_MAX_REQUESTS e =
     orDefault (parseIntEnv (HEALTH_CHECK_RATE_LIMIT_PER_HOUR e)) 100"

text \<open>The line every function of the module repeats:
  \<^verbatim>\<open>limiterType === 'health' ? HEALTH_CHECK_... : PROCESSING_...\<close>.\<close>

definition maxRequestsOf :: "env \<Rightarrow> string \<Rightarrow> int" where
  "maxRequestsOf e limiterType =
     (if limiterType = ''health'' then HEALTH_CHECK_RATE_LIMIT_MAX_REQUESTS e
      else PROCESSING_RATE_LIMIT_MAX_REQUESTS e)"

text \<open>The environment with nothing set.\<close>

definition emptyEnv :: env where
  "emptyEnv = \<lparr>RATE_LIMIT_PER_HOUR = None, HEALTH_CHECK_RATE_LIMIT_PER_HOUR = None,
     UPSTASH_REDIS_REST_URL = None, UPSTASH_REDIS_REST_TOKEN = None\<rparr>"

subsection \<open>Client identity\<close>

text \<open>The part of an Express request the module reads: \<^verbatim>\<open>req.headers\<close>, \<^verbatim>\<open>req.ip\<close> and
  \<^verbatim>\<open>req.connection?.remoteAddress\<close>. A header or property that is \<^verbatim>\<open>undefined\<close> is \<open>None\<close>.\<close>

record socket =
  remoteAddress :: "string option"

record request =
  headers :: "string \<rightharpoonup> string"
  ip :: "string option"
  connection :: "socket option"

definition trim :: "string \<Rightarrow> string" where
  "trim s = rev (dropWhile isWhiteSpace (rev (dropWhile isWhiteSpace s)))"

text \<open>\<^verbatim>\<open>a || b\<close> on strings: \<^verbatim>\<open>undefined\<close> and the empty string are falsy.\<close>

definition orElse :: "string option \<Rightarrow> string \<Rightarrow> string" where
  "orElse a b = (case a of None \<Rightarrow> b | Some s \<Rightarrow> if s = [] then b else s)"

text \<open>\<^verbatim>\<open>xForwardedFor.split(',')[0]\<close> is the text before the first comma.\<close>

definition extractClientIP :: "request \<Rightarrow> string" where
  "extractClientIP req =
     (let fallback = orElse (ip req)
            (orElse (case connection req of None \<Rightarrow> None | Some c \<Rightarrow> remoteAddress c)
               ''unknown'')
      in case headers req ''x-forwarded-for'' of
           None \<Rightarrow> fallback
         | Some xForwardedFor \<Rightarrow>
             if xForwardedFor \<noteq> [] then trim (takeWhile (\<lambda>c. c \<noteq> CHR '','') xForwardedFor)
             else fallback)"

definition sanitizeIP :: "string \<Rightarrow> string" where
  "sanitizeIP ip' = map (\<lambda>c. if c = CHR '':'' \<or> c = CHR ''.'' then CHR ''-'' else c) ip'"

subsection \<open>The in-memory backend\<close>

record limiter =
  count :: int
  resetTime :: int

record rate_result =
  allowed :: bool
  remaining :: int
  resetTime :: int
  retryAfter :: "int option"

text \<open>\<^verbatim>\<open>Math.ceil(x / 1000)\<close> on an integer \<open>x\<close>.\<close>

definition ceilSeconds :: "int \<Rightarrow> int" where
  "ceilSeconds x = - ((- x) div 1000)"

definition limiterKeyOf :: "string \<Rightarrow> string \<Rightarrow> string" where
  "limiterKeyOf limiterType clientIP = ''ratelimit:'' @ limiterType @ '':'' @ clientIP"

text \<open>\<^verbatim>\<open>checkInMemoryRateLimit(clientIP, limiterType)\<close>; the map is passed in and returned.
  (A caller that leaves \<^verbatim>\<open>limiterType\<close> out passes \<^verbatim>\<open>'processing'\<close>, its default value.)\<close>

definition checkInMemoryRateLimit ::
  "env \<Rightarrow> int \<Rightarrow> string \<Rightarrow> string \<Rightarrow> (string \<rightharpoonup> limiter) \<Rightarrow> rate_result \<times> (string \<rightharpoonup> limiter)"
where
  "checkInMemoryRateLimit e now clientIP limiterType m =
     (let maxRequests = maxRequestsOf e limiterType;
          limiterKey = limiterKeyOf limiterType clientIP
      in case m limiterKey of
           None \<Rightarrow>
             (\<lparr>allowed = True, remaining = maxRequests - 1,
               resetTime = now + RATE_LIMIT_WINDOW, retryAfter = None\<rparr>,
              m(limiterKey \<mapsto> \<lparr>count = 1, resetTime = now + RATE_LIMIT_WINDOW\<rparr>))
         | Some l \<Rightarrow>
             if now > limiter.resetTime l then
               (\<lparr>allowed = True, remaining = maxRequests - 1,
                 resetTime = now + RATE_LIMIT_WINDOW, retryAfter = None\<rparr>,
                m(limiterKey \<mapsto> \<lparr>count = 1, resetTime = now + RATE_LIMIT_WINDOW\<rparr>))
             else if count l \<ge> maxRequests then
               (\<lparr>allowed = False, remaining = 0, resetTime = limiter.resetTime l,
                 retryAfter = Some (ceilSeconds (limiter.resetTime l - now))\<rparr>, m)
             else
               (\<lparr>allowed = True, remaining = maxRequests - (count l + 1),
                 resetTime = limiter.resetTime l, retryAfter = None\<rparr>,
                m(limiterKey \<mapsto> \<lparr>count = count l + 1, resetTime = limiter.resetTime l\<rparr>)))"

subsection \<open>The Redis client\<close>

text \<open>The store behind the client follows the repository's \<^verbatim>\<open>MockRedisClient\<close>
  (\<^verbatim>\<open>tests/helpers/mockRedis.ts\<close>): a map from keys to a number and an optional expiry
  time. (The field \<^verbatim>\<open>value\<close> is called \<open>val\<close> here.) One process owns the store.\<close>

record RedisEntry =
  val :: int
  expiresAt :: "int option"

type_synonym MockRedisClient = "string \<rightharpoonup> RedisEntry"

text \<open>\<^verbatim>\<open>entry.expiresAt && entry.expiresAt < Date.now()\<close>: \<^verbatim>\<open>null\<close> and \<open>0\<close> are falsy.\<close>

definition isExpired :: "int \<Rightarrow> RedisEntry \<Rightarrow> bool" where
  "isExpired now entry = (case expiresAt entry of None \<Rightarrow> False | Some x \<Rightarrow> x \<noteq> 0 \<and> x < now)"

text \<open>\<^verbatim>\<open>entry?.expiresAt || null\<close>.\<close>

definition keepExpiry :: "RedisEntry \<Rightarrow> int option" where
  "keepExpiry entry =
     (case expiresAt entry of None \<Rightarrow> None | Some x \<Rightarrow> if x = 0 then None else Some x)"

definition incr :: "int \<Rightarrow> string \<Rightarrow> MockRedisClient \<Rightarrow> int \<times> MockRedisClient" where
  "incr now key store =
     (case store key of
        None \<Rightarrow> (1, store(key \<mapsto> \<lparr>val = 1, expiresAt = None\<rparr>))
      | Some entry \<Rightarrow>
          if isExpired now entry then (1, store(key \<mapsto> \<lparr>val = 1, expiresAt = None\<rparr>))
          else
            (let newValue = val entry + 1
             in (newValue, store(key \<mapsto> \<lparr>val = newValue, expiresAt = keepExpiry entry\<rparr>))))"

definition expire :: "int \<Rightarrow> string \<Rightarrow> int \<Rightarrow> MockRedisClient \<Rightarrow> bool \<times> MockRedisClient" where
  "expire now key seconds store =
     (case store key of
        None \<Rightarrow> (False, store)
      | Some entry \<Rightarrow> (True, store(key \<mapsto> entry\<lparr>expiresAt := Some (now + seconds * 1000)\<rparr>)))"

text \<open>\<^verbatim>\<open>get\<close> returns \<^verbatim>\<open>entry?.value || null\<close> and deletes an expired entry.\<close>

definition get :: "int \<Rightarrow> string \<Rightarrow> MockRedisClient \<Rightarrow> int option \<times> MockRedisClient" where
  "get now key store =
     (case store key of
        None \<Rightarrow> (None, store)
      | Some entry \<Rightarrow>
          if isExpired now entry then (None, store(key := None))
          else (if val entry = 0 then None else Some (val entry), store))"

text \<open>A call on the real client goes over the network and may throw. Which of the calls
  made while one request is handled throw is an input of the model; a call that throws
  leaves the store as it was.\<close>

record redis_faults =
  import_throws :: bool
  ping_throws :: bool
  incr_throws :: bool
  expire_throws :: bool
  get_throws :: bool
  message :: string

datatype js_error = Error string | TypeError string | ReferenceError string

fun messageOf :: "js_error \<Rightarrow> string" where
  "messageOf (Error s) = s"
| "messageOf (TypeError s) = s"
| "messageOf (ReferenceError s) = s"

subsection \<open>Module state and backend selection\<close>

record limiter_state =
  inMemoryRateLimitMap :: "string \<rightharpoonup> limiter"
  redisClient :: "MockRedisClient option"
  useRedis :: bool
  rateLimiterInitialized :: bool

text \<open>The state of a freshly loaded module.\<close>

definition initialState :: limiter_state where
  "initialState = \<lparr>inMemoryRateLimitMap = Map.empty, redisClient = None, useRedis = False,
     rateLimiterInitialized = False\<rparr>"

definition truthy :: "string option \<Rightarrow> bool" where
  "truthy v = (case v of None \<Rightarrow> False | Some s \<Rightarrow> s \<noteq> [])"

text \<open>\<^verbatim>\<open>initializeRedis()\<close>; \<open>remote\<close> is the content of the store the new client reaches.\<close>

definition initializeRedis :: "env \<Rightarrow> MockRedisClient \<Rightarrow> redis_faults \<Rightarrow> limiter_state \<Rightarrow> limiter_state" where
  "initializeRedis e remote rf st =
     (if rateLimiterInitialized st then st
      else
        (let st1 = st\<lparr>rateLimiterInitialized := True\<rparr>
         in if truthy (UPSTASH_REDIS_REST_URL e) \<and> truthy (UPSTASH_REDIS_REST_TOKEN e) then
              (if import_throws rf then st1\<lparr>useRedis := False\<rparr>
               else
                 (let st2 = st1\<lparr>redisClient := Some remote\<rparr>
                  in if ping_throws rf then st2\<lparr>useRedis := False\<rparr>
                     else st2\<lparr>useRedis := True\<rparr>))
            else st1))"

subsection \<open>The Redis backend\<close>

definition redisKeyOf :: "string \<Rightarrow> string \<Rightarrow> string" where
  "redisKeyOf limiterType clientIP = ''ratelimit:'' @ limiterType @ '':'' @ sanitizeIP clientIP"

text \<open>The body of the \<^verbatim>\<open>try\<close> block of \<^verbatim>\<open>checkRedisRateLimit\<close>. \<open>Inl\<close> is a thrown
  exception; the state returned with it is the state at the time of the throw. Calling a
  method of a client that is \<^verbatim>\<open>null\<close> is a \<^verbatim>\<open>TypeError\<close>. One reading of the clock serves
  the whole call; it is not negative, so \<^verbatim>\<open>%\<close> is \<open>mod\<close>.\<close>

definition checkRedisTry ::
  "env \<Rightarrow> int \<Rightarrow> redis_faults \<Rightarrow> string \<Rightarrow> string \<Rightarrow> limiter_state
     \<Rightarrow> (js_error + rate_result) \<times> limiter_state"
where
  "checkRedisTry e now rf clientIP limiterType st =
     (let maxRequests = maxRequestsOf e limiterType;
          redisKey = redisKeyOf limiterType clientIP
      in case redisClient st of
           None \<Rightarrow> (Inl (TypeError ''Cannot read properties of null''), st)
         | Some client \<Rightarrow>
             if incr_throws rf then (Inl (Error (message rf)), st)
             else
               (let (count, client1) = incr now redisKey client;
                    st1 = st\<lparr>redisClient := Some client1\<rparr>
                in if count = 1 \<and> expire_throws rf then (Inl (Error (message rf)), st1)
                   else
                     (let st2 = (if count = 1
                                 then st1\<lparr>redisClient := Some (snd (expire now redisKey 3600 client1))\<rparr>
                                 else st1);
                          remaining = max 0 (maxRequests - count);
                          resetTime = now + RATE_LIMIT_WINDOW
                      in if count > maxRequests then
                           (Inr \<lparr>allowed = False, remaining = 0, resetTime = resetTime,
                              retryAfter = Some (60 - (now mod 60000) div 1000)\<rparr>, st2)
                         else
                           (Inr \<lparr>allowed = True, remaining = remaining, resetTime = resetTime,
                              retryAfter = None\<rparr>, st2))))"

text \<open>\<^verbatim>\<open>checkRedisRateLimit\<close>: the \<^verbatim>\<open>catch\<close> clause clears \<^verbatim>\<open>useRedis\<close> and answers from the
  in-memory backend.\<close>

definition checkRedisRateLimit ::
  "env \<Rightarrow> int \<Rightarrow> redis_faults \<Rightarrow> string \<Rightarrow> string \<Rightarrow> limiter_state \<Rightarrow> rate_result \<times> limiter_state"
where
  "checkRedisRateLimit e now rf clientIP limiterType st =
     (case checkRedisTry e now rf clientIP limiterType st of
        (Inr result, st') \<Rightarrow> (result, st')
      | (Inl error, st') \<Rightarrow>
          (let (result, m) =
                 checkInMemoryRateLimit e now clientIP limiterType (inMemoryRateLimitMap st')
           in (result, st'\<lparr>useRedis := False, inMemoryRateLimitMap := m\<rparr>)))"

subsection \<open>The middleware\<close>

text \<open>What the middleware does to the response and whether it called \<^verbatim>\<open>next()\<close>. The body
  of the 429 response is the pair of its \<^verbatim>\<open>error\<close> and \<^verbatim>\<open>retryAfter\<close> fields.\<close>

record response =
  res_headers :: "string \<rightharpoonup> int"
  status :: "nat option"
  body :: "(string \<times> int) option"
  next_called :: bool

definition emptyResponse :: response where
  "emptyResponse = \<lparr>res_headers = Map.empty, status = None, body = None, next_called = False\<rparr>"

definition setHeader :: "string \<Rightarrow> int \<Rightarrow> response \<Rightarrow> response" where
  "setHeader name v res = res\<lparr>res_headers := (res_headers res)(name \<mapsto> v)\<rparr>"

text \<open>The steps of the middleware at which an unexpected exception can be raised. With the
  typed request above no step of the model throws by itself, so an internal fault is an
  input: \<open>Some s\<close> raises an exception when step \<open>s\<close> runs (for \<open>DECIDE\<close>, after the counter
  was updated and before the result is used).\<close>

datatype stage = IDENTIFY | LOOKUP | DECIDE

text \<open>The \<^verbatim>\<open>try\<close> block of the middleware returned by \<^verbatim>\<open>createRateLimiter(limiterType)\<close>.
  \<^verbatim>\<open>res.setHeader\<close> throws on a value that is \<^verbatim>\<open>undefined\<close>.\<close>

definition rateLimiterTry ::
  "string \<Rightarrow> env \<Rightarrow> MockRedisClient \<Rightarrow> int \<Rightarrow> redis_faults \<Rightarrow> stage option \<Rightarrow> request
     \<Rightarrow> response \<Rightarrow> limiter_state \<Rightarrow> (js_error + unit) \<times> response \<times> limiter_state"
where
  "rateLimiterTry limiterType e remote now rf fault req res st =
     (let st1 = (if \<not> rateLimiterInitialized st then initializeRedis e remote rf st else st)
      in if fault = Some IDENTIFY then (Inl (Error ''unexpected''), res, st1)
         else
           (let clientIP = extractClientIP req
            in if fault = Some LOOKUP then (Inl (Error ''unexpected''), res, st1)
               else
                 (let (result, st2) =
                        (if useRedis st1 \<and> redisClient st1 \<noteq> None
                         then checkRedisRateLimit e now rf clientIP limiterType st1
                         else (let (r, m) = checkInMemoryRateLimit e now clientIP limiterType
                                              (inMemoryRateLimitMap st1)
                               in (r, st1\<lparr>inMemoryRateLimitMap := m\<rparr>)))
                  in if fault = Some DECIDE then (Inl (Error ''unexpected''), res, st2)
                     else
                       (let maxRequests = maxRequestsOf e limiterType;
                            res1 = setHeader ''X-RateLimit-Limit'' maxRequests res;
                            res2 = setHeader ''X-RateLimit-Remaining'' (max 0 (remaining result)) res1;
                            res3 = setHeader ''X-RateLimit-Reset''
                                     (rate_result.resetTime result div 1000) res2
                        in if \<not> allowed result then
                             (case retryAfter result of
                                None \<Rightarrow> (Inl (TypeError ''Invalid value for header''),
                                         res3, st2)
                              | Some r \<Rightarrow>
                                  (Inr (),
                                   (setHeader ''Retry-After'' r res3)
                                     \<lparr>status := Some 429,
                                      body := Some (''Too many requests. Please try again later.'', r)\<rparr>,
                                   st2))
                           else (Inr (), res3\<lparr>next_called := True\<rparr>, st2)))))"

text \<open>The middleware: the \<^verbatim>\<open>try\<close> block, and the \<^verbatim>\<open>catch\<close> clause that sets the limit header
  and calls \<^verbatim>\<open>next()\<close>.\<close>

definition createRateLimiter ::
  "string \<Rightarrow> env \<Rightarrow> MockRedisClient \<Rightarrow> int \<Rightarrow> redis_faults \<Rightarrow> stage option \<Rightarrow> request
     \<Rightarrow> response \<Rightarrow> limiter_state \<Rightarrow> response \<times> limiter_state"
where
  "createRateLimiter limiterType e remote now rf fault req res st =
     (case rateLimiterTry limiterType e remote now rf fault req res st of
        (Inr u, res', st') \<Rightarrow> (res', st')
      | (Inl error, res', st') \<Rightarrow>
          ((setHeader ''X-RateLimit-Limit'' (maxRequestsOf e limiterType) res')
             \<lparr>next_called := True\<rparr>, st'))"

definition clearAllLimits :: "limiter_state \<Rightarrow> limiter_state" where
  "clearAllLimits st = st\<lparr>inMemoryRateLimitMap := Map.empty\<rparr>"

subsection \<open>\<^verbatim>\<open>getRateLimitStatus\<close>\<close>

text \<open>The value of a numeric identifier in the scope of the module. The module declares
  three numeric constants; any other name read as a value is a \<^verbatim>\<open>ReferenceError\<close>.\<close>

definition resolveNumber :: "env \<Rightarrow> string \<Rightarrow> js_error + int" where
  "resolveNumber e name =
     (if name = ''RATE_LIMIT_WINDOW'' then Inr RATE_LIMIT_WINDOW
      else if name = ''PROCESSING_RATE_LIMIT_MAX_REQUESTS''
        then Inr (PROCESSING_RATE_LIMIT_MAX_REQUESTS e)
      else if name = ''HEALTH_CHECK_RATE_LIMIT_MAX_REQUESTS''
        then Inr (HEALTH_CHECK_RATE_LIMIT_MAX_REQUESTS e)
      else Inl (ReferenceError (name @ '' is not defined'')))"

text \<open>The object the function returns: \<^verbatim>\<open>{mode, ip, count, limit, resetTime}\<close> or
  \<^verbatim>\<open>{error}\<close>.\<close>

datatype rate_limit_status =
  Status string string int int "int option"
| ErrorObject string

text \<open>The condition \<^verbatim>\<open>useRedis && redisClient\<close> is the client when \<^verbatim>\<open>useRedis\<close> is true and
  falsy otherwise. The properties of an object literal are evaluated in order, so \<^verbatim>\<open>limit\<close>
  is evaluated after the store was read. In Redis mode the body is inside \<^verbatim>\<open>try\<close>, and the
  \<^verbatim>\<open>catch\<close> clause returns \<^verbatim>\<open>{error: error.message}\<close>.\<close>

definition getRateLimitStatus ::
  "env \<Rightarrow> int \<Rightarrow> redis_faults \<Rightarrow> string \<Rightarrow> limiter_state
     \<Rightarrow> (js_error + rate_limit_status) \<times> limiter_state"
where
  "getRateLimitStatus e now rf clientIP st =
     (case (if useRedis st then redisClient st else None) of
        Some client \<Rightarrow>
          if get_throws rf then (Inr (ErrorObject (message rf)), st)
          else
            (let (count, client1) = get now (''ratelimit:'' @ sanitizeIP clientIP) client;
                 st1 = st\<lparr>redisClient := Some client1\<rparr>
             in case resolveNumber e ''RATE_LIMIT_MAX_REQUESTS'' of
                  Inl error \<Rightarrow> (Inr (ErrorObject (messageOf error)), st1)
                | Inr limit \<Rightarrow>
                    (Inr (Status ''redis'' clientIP (case count of None \<Rightarrow> 0 | Some c \<Rightarrow> c)
                            limit None), st1))
      | None \<Rightarrow>
          (let l = inMemoryRateLimitMap st (''ratelimit:'' @ clientIP)
           in case resolveNumber e ''RATE_LIMIT_MAX_REQUESTS'' of
                Inl error \<Rightarrow> (Inl error, st)
              | Inr limit \<Rightarrow>
                  (Inr (Status ''in-memory'' clientIP
                          (case l of None \<Rightarrow> 0 | Some x \<Rightarrow> count x) limit
                          (case l of None \<Rightarrow> None | Some x \<Rightarrow> Some (limiter.resetTime x))), st)))"

section \<open>Runs of requests\<close>

text \<open>The definitions of this section are not functions of the module: they describe the
  traffic a process serves and the situations the properties below speak about.\<close>

subsection \<open>Sequences of requests\<close>

text \<open>One request to a rate-limited route: the namespace of the route, the time it is handled,
  the request, and which Redis calls throw while it is handled.\<close>

datatype call = Call (c_type: string) (c_now: int) (c_req: request) (c_faults: redis_faults)

text \<open>Requests handled one after the other, each with a fresh response object.\<close>

fun run_requests ::
  "env \<Rightarrow> MockRedisClient \<Rightarrow> call list \<Rightarrow> limiter_state \<Rightarrow> response list \<times> limiter_state"
where
  "run_requests e remote [] st = ([], st)"
| "run_requests e remote (c # cs) st =
     (let (res, st1) = createRateLimiter (c_type c) e remote (c_now c) (c_faults c) None (c_req c)
                         emptyResponse st;
          (rs, st2) = run_requests e remote cs st1
      in (res # rs, st2))"

text \<open>The in-memory backend alone, fed the same requests.\<close>

fun run_in_memory :: "env \<Rightarrow> call list \<Rightarrow> (string \<rightharpoonup> limiter) \<Rightarrow> rate_result list" where
  "run_in_memory e [] m = []"
| "run_in_memory e (c # cs) m =
     (let (r, m1) = checkInMemoryRateLimit e (c_now c) (extractClientIP (c_req c)) (c_type c) m
      in r # run_in_memory e cs m1)"

subsection \<open>Windows and backends\<close>

text \<open>A window starts at time \<open>now\<close>: the backend in use holds no live counter for the
  identity in the namespace.\<close>

definition memoryWindowStarts :: "(string \<rightharpoonup> limiter) \<Rightarrow> string \<Rightarrow> string \<Rightarrow> int \<Rightarrow> bool" where
  "memoryWindowStarts m limiterType clientIP now =
     (case m (limiterKeyOf limiterType clientIP) of
        None \<Rightarrow> True
      | Some l \<Rightarrow> limiter.resetTime l < now)"

definition windowStarts :: "limiter_state \<Rightarrow> string \<Rightarrow> string \<Rightarrow> int \<Rightarrow> bool" where
  "windowStarts st limiterType clientIP now =
     (if useRedis st then
        (case redisClient st of
           None \<Rightarrow> False
         | Some client \<Rightarrow>
             (case client (redisKeyOf limiterType clientIP) of
                None \<Rightarrow> True
              | Some entry \<Rightarrow> isExpired now entry))
      else memoryWindowStarts (inMemoryRateLimitMap st) limiterType clientIP now)"

text \<open>No Redis call made for the request throws.\<close>

definition redisAnswers :: "call \<Rightarrow> bool" where
  "redisAnswers c = (\<not> incr_throws (c_faults c) \<and> \<not> expire_throws (c_faults c))"

text \<open>The \<open>n\<close> requests of one identity to one namespace, the first at \<open>t0\<close> and all of them
  no later than the end of the window that starts at \<open>t0\<close>.\<close>

definition sameWindow :: "string \<Rightarrow> string \<Rightarrow> int \<Rightarrow> call list \<Rightarrow> bool" where
  "sameWindow limiterType clientIP t0 calls =
     (calls \<noteq> [] \<and> c_now (hd calls) = t0 \<and>
      list_all (\<lambda>c. c_type c = limiterType \<and> extractClientIP (c_req c) = clientIP \<and>
                    c_now c \<le> t0 + RATE_LIMIT_WINDOW) calls)"

subsection \<open>Concrete inputs\<close>

text \<open>Inputs used to run the definitions: a request with a forwarding header, Redis calls
  that all answer, Redis calls that all throw, and an environment that names a store.\<close>

definition forwardedRequest :: "string \<Rightarrow> request" where
  "forwardedRequest xff = \<lparr>headers = [''x-forwarded-for'' \<mapsto> xff], ip = None, connection = None\<rparr>"

definition noFaults :: redis_faults where
  "noFaults = \<lparr>import_throws = False, ping_throws = False, incr_throws = False,
     expire_throws = False, get_throws = False, message = ''''\<rparr>"


definition redisEnv :: env where
  "redisEnv = emptyEnv\<lparr>UPSTASH_REDIS_REST_URL := Some ''https://store'',
     UPSTASH_REDIS_REST_TOKEN := Some ''token''\<rparr>"

text \<open>A burst of \<open>n\<close> requests of the identity \<^verbatim>\<open>9.9.9.9\<close> to the processing routes, one
  millisecond apart, and the two states in which a process serves them: initialised with
  the in-memory backend, or with a Redis client on an empty store.\<close>

definition burst :: "redis_faults \<Rightarrow> nat \<Rightarrow> call list" where
  "burst rf n =
     map (\<lambda>k. Call ''processing'' (1000 + int k) (forwardedRequest ''9.9.9.9, 10.0.0.1'') rf) [0..<n]"

definition memoryState :: limiter_state where
  "memoryState = initialState\<lparr>rateLimiterInitialized := True\<rparr>"

definition redisState :: limiter_state where
  "redisState = initialState\<lparr>rateLimiterInitialized := True, useRedis := True,
     redisClient := Some Map.empty\<rparr>"

text \<open>A map in which the identity \<^verbatim>\<open>9.9.9.9\<close> has used its ten processing requests in a window
  that ends at \<open>t\<close>, and a Redis store in the same situation.\<close>

definition atLimit :: "int \<Rightarrow> string \<rightharpoonup> limiter" where
  "atLimit t = [limiterKeyOf ''processing'' ''9.9.9.9'' \<mapsto> \<lparr>count = 10, resetTime = t\<rparr>]"

definition redisAtLimit :: limiter_state where
  "redisAtLimit = redisState\<lparr>redisClient :=
     Some [redisKeyOf ''processing'' ''9.9.9.9'' \<mapsto> \<lparr>val = 10, expiresAt = Some 3600000\<rparr>]\<rparr>"

subsection \<open>Failures of the store\<close>




subsection \<open>Interleaved traffic\<close>

text \<open>The Redis backend alone, fed the same requests.\<close>

fun run_redis :: "env \<Rightarrow> call list \<Rightarrow> limiter_state \<Rightarrow> rate_result list" where
  "run_redis e [] st = []"
| "run_redis e (c # cs) st =
     (let (r, st1) = checkRedisRateLimit e (c_now c) (c_faults c) (extractClientIP (c_req c))
                       (c_type c) st
      in r # run_redis e cs st1)"

text \<open>The requests of one identity to one namespace, and the results they got in a run.\<close>

definition forCounter :: "string \<Rightarrow> string \<Rightarrow> call \<Rightarrow> bool" where
  "forCounter limiterType clientIP c =
     (c_type c = limiterType \<and> extractClientIP (c_req c) = clientIP)"

definition resultsFor :: "(call \<Rightarrow> bool) \<Rightarrow> call list \<Rightarrow> rate_result list \<Rightarrow> rate_result list" where
  "resultsFor P calls rs = map snd (filter (\<lambda>p. P (fst p)) (zip calls rs))"

definition callKey :: "call \<Rightarrow> string" where
  "callKey c = limiterKeyOf (c_type c) (extractClientIP (c_req c))"

definition callRedisKey :: "call \<Rightarrow> string" where
  "callRedisKey c = redisKeyOf (c_type c) (extractClientIP (c_req c))"

text \<open>The two namespaces the module is used with.\<close>

definition isNamespace :: "string \<Rightarrow> bool" where
  "isNamespace limiterType = (limiterType = ''processing'' \<or> limiterType = ''health'')"

text \<open>Two states hold the same counters for one Redis key and one in-memory key.\<close>

definition agreeOn :: "string \<Rightarrow> string \<Rightarrow> limiter_state \<Rightarrow> limiter_state \<Rightarrow> bool" where
  "agreeOn redisKey limiterKey st st' =
     (inMemoryRateLimitMap st limiterKey = inMemoryRateLimitMap st' limiterKey \<and>
      (case (redisClient st, redisClient st') of
         (None, None) \<Rightarrow> True
       | (Some client, Some client') \<Rightarrow> client redisKey = client' redisKey
       | _ \<Rightarrow> False))"

text \<open>Interleaved traffic: the identity \<^verbatim>\<open>9.9.9.9\<close> on a processing route, another identity on
  the same route, \<^verbatim>\<open>9.9.9.9\<close> on the health route, and \<^verbatim>\<open>9.9.9.9\<close> on the processing route
  again. And two identities that differ only in characters which \<^verbatim>\<open>sanitizeIP\<close> replaces.\<close>

definition mixedTraffic :: "call list" where
  "mixedTraffic =
     [Call ''processing'' 1000 (forwardedRequest ''9.9.9.9, 10.0.0.1'') noFaults,
      Call ''processing'' 1001 (forwardedRequest ''5.6.7.8'') noFaults,
      Call ''health'' 1002 (forwardedRequest ''9.9.9.9'') noFaults,
      Call ''processing'' 1003 (forwardedRequest ''9.9.9.9'') noFaults]"

definition collidingTraffic :: "call list" where
  "collidingTraffic =
     [Call ''processing'' 1000 (forwardedRequest ''1-2-3-4'') noFaults,
      Call ''processing'' 1001 (forwardedRequest ''1.2.3.4'') noFaults]"

section \<open>Lemmas\<close>

subsection \<open>Configured limits\<close>

lemma parseInt_minus_five: "parseInt ''-5'' = Some (- 5)"
  by (simp add: parseInt_def isWhiteSpace_def isDigit_def digitValue_def)

lemma parseInt_undefined: "parseInt ''undefined'' = None"
  by (simp add: parseInt_def isWhiteSpace_def isDigit_def)

lemma default_limits:
  "PROCESSING_RATE_LIMIT_MAX_REQUESTS emptyEnv = 10"
  "HEALTH_CHECK_RATE_LIMIT_MAX_REQUESTS emptyEnv = 100"
  by (simp_all add: PROCESSING_RATE_LIMIT_MAX_REQUESTS_def
      HEALTH_CHECK_RATE_LIMIT_MAX_REQUESTS_def parseIntEnv_def parseInt_undefined
      orDefault_def emptyEnv_def)

subsection \<open>Runs inside one window\<close>

lemma checkInMemory_fresh:
  assumes "m (limiterKeyOf lt cip) = None \<or> (\<exists>l. m (limiterKeyOf lt cip) = Some l \<and> limiter.resetTime l < now)"
  shows "checkInMemoryRateLimit e now cip lt m =
     (\<lparr>allowed = True, remaining = maxRequestsOf e lt - 1,
       resetTime = now + RATE_LIMIT_WINDOW, retryAfter = None\<rparr>,
      m(limiterKeyOf lt cip \<mapsto> \<lparr>count = 1, resetTime = now + RATE_LIMIT_WINDOW\<rparr>))"
  using assms by (auto simp: checkInMemoryRateLimit_def Let_def)

lemma checkInMemory_window:
  assumes "m (limiterKeyOf lt cip) = Some l" "now \<le> limiter.resetTime l"
  shows "checkInMemoryRateLimit e now cip lt m =
     (if maxRequestsOf e lt \<le> count l then
        (\<lparr>allowed = False, remaining = 0, resetTime = limiter.resetTime l,
          retryAfter = Some (ceilSeconds (limiter.resetTime l - now))\<rparr>, m)
      else
        (\<lparr>allowed = True, remaining = maxRequestsOf e lt - (count l + 1),
          resetTime = limiter.resetTime l, retryAfter = None\<rparr>,
         m(limiterKeyOf lt cip \<mapsto> \<lparr>count = count l + 1, resetTime = limiter.resetTime l\<rparr>)))"
  using assms by (simp add: checkInMemoryRateLimit_def Let_def)

lemma checkInMemory_denied_retry:
  "checkInMemoryRateLimit e now cip lt m = (r, m') \<Longrightarrow> \<not> allowed r \<Longrightarrow> retryAfter r \<noteq> None"
  by (auto simp: checkInMemoryRateLimit_def Let_def split: option.splits if_splits)

lemma middleware_in_memory:
  assumes "rateLimiterInitialized st" "\<not> useRedis st"
    and "checkInMemoryRateLimit e now (extractClientIP req) lt (inMemoryRateLimitMap st) = (r, m)"
    and "createRateLimiter lt e remote now rf None req emptyResponse st = (res, st')"
  shows "st' = st\<lparr>inMemoryRateLimitMap := m\<rparr> \<and> next_called res = allowed r \<and>
         status res = (if allowed r then None else Some 429) \<and>
         res_headers res ''Retry-After'' = (if allowed r then None else retryAfter r) \<and>
         body res = (if allowed r then None
            else map_option (\<lambda>s. (''Too many requests. Please try again later.'', s)) (retryAfter r))"
proof -
  have "\<not> allowed r \<Longrightarrow> retryAfter r \<noteq> None"
    using assms(3) by (rule checkInMemory_denied_retry)
  then show ?thesis
    using assms
    by (auto simp: createRateLimiter_def rateLimiterTry_def Let_def setHeader_def emptyResponse_def
        split: option.splits)
qed

lemma run_requests_in_memory_window:
  assumes "rateLimiterInitialized st" "\<not> useRedis st"
    and "inMemoryRateLimitMap st (limiterKeyOf lt cip) = Some l"
    and "\<forall>c \<in> set calls. c_type c = lt \<and> extractClientIP (c_req c) = cip \<and> c_now c \<le> limiter.resetTime l"
    and "i < length calls"
  shows "next_called (fst (run_requests e remote calls st) ! i) = (count l + int i < maxRequestsOf e lt) \<and>
         status (fst (run_requests e remote calls st) ! i) =
           (if count l + int i < maxRequestsOf e lt then None else Some 429)"
  using assms
proof (induction calls arbitrary: st l i)
  case Nil
  then show ?case by simp
next
  case (Cons c cs)
  obtain res st1 where g: "createRateLimiter lt e remote (c_now c) (c_faults c) None (c_req c)
      emptyResponse st = (res, st1)"
    by (cases "createRateLimiter lt e remote (c_now c) (c_faults c) None (c_req c) emptyResponse st")
  obtain r m where k: "checkInMemoryRateLimit e (c_now c) (extractClientIP (c_req c)) lt
      (inMemoryRateLimitMap st) = (r, m)"
    by (cases "checkInMemoryRateLimit e (c_now c) (extractClientIP (c_req c)) lt (inMemoryRateLimitMap st)")
  have c: "c_type c = lt" "extractClientIP (c_req c) = cip" "c_now c \<le> limiter.resetTime l"
    using Cons.prems(4) by simp_all
  note G = middleware_in_memory [OF Cons.prems(1,2) k g]
  have W: "(r, m) = (if maxRequestsOf e lt \<le> count l then
        (\<lparr>allowed = False, remaining = 0, resetTime = limiter.resetTime l,
          retryAfter = Some (ceilSeconds (limiter.resetTime l - c_now c))\<rparr>, inMemoryRateLimitMap st)
      else
        (\<lparr>allowed = True, remaining = maxRequestsOf e lt - (count l + 1),
          resetTime = limiter.resetTime l, retryAfter = None\<rparr>,
         (inMemoryRateLimitMap st)(limiterKeyOf lt cip \<mapsto> \<lparr>count = count l + 1, resetTime = limiter.resetTime l\<rparr>)))"
    using checkInMemory_window [OF _ c(3), of "inMemoryRateLimitMap st" lt cip e] Cons.prems(3) k c(2)
    by simp
  have run: "fst (run_requests e remote (c # cs) st) = res # fst (run_requests e remote cs st1)"
    using g c(1) by (simp add: split_beta)
  show ?case
  proof (cases i)
    case 0
    then show ?thesis using run G W by (auto split: if_splits)
  next
    case (Suc j)
    define l' where "l' = (if maxRequestsOf e lt \<le> count l then l
         else \<lparr>count = count l + 1, resetTime = limiter.resetTime l\<rparr>)"
    have st1: "rateLimiterInitialized st1" "\<not> useRedis st1"
      using G Cons.prems(1,2) by simp_all
    have m1: "inMemoryRateLimitMap st1 (limiterKeyOf lt cip) = Some l'"
      using G W Cons.prems(3) by (auto simp: l'_def split: if_splits)
    have rt: "limiter.resetTime l' = limiter.resetTime l" by (simp add: l'_def)
    have cs: "\<forall>c \<in> set cs. c_type c = lt \<and> extractClientIP (c_req c) = cip \<and> c_now c \<le> limiter.resetTime l'"
      using Cons.prems(4) rt by simp
    have j: "j < length cs" using Cons.prems(5) Suc by simp
    have cnt: "(count l' + int j < maxRequestsOf e lt) = (count l + int i < maxRequestsOf e lt)"
      using Suc by (auto simp: l'_def)
    show ?thesis
      using Cons.IH [OF st1 m1 cs j] run Suc cnt by simp
  qed
qed

lemma run_requests_in_memory_fresh:
  assumes "rateLimiterInitialized st" "\<not> useRedis st"
    and "inMemoryRateLimitMap st (limiterKeyOf lt cip) = None \<or>
         (\<exists>l. inMemoryRateLimitMap st (limiterKeyOf lt cip) = Some l \<and> limiter.resetTime l < c_now c0)"
    and "1 \<le> maxRequestsOf e lt"
    and "\<forall>c \<in> set (c0 # cs). c_type c = lt \<and> extractClientIP (c_req c) = cip \<and>
           c_now c \<le> c_now c0 + RATE_LIMIT_WINDOW"
    and "i < length (c0 # cs)"
  shows "next_called (fst (run_requests e remote (c0 # cs) st) ! i) = (int i < maxRequestsOf e lt) \<and>
         status (fst (run_requests e remote (c0 # cs) st) ! i) =
           (if int i < maxRequestsOf e lt then None else Some 429)"
proof -
  obtain res st1 where g: "createRateLimiter lt e remote (c_now c0) (c_faults c0) None (c_req c0)
      emptyResponse st = (res, st1)"
    by (cases "createRateLimiter lt e remote (c_now c0) (c_faults c0) None (c_req c0) emptyResponse st")
  have c: "c_type c0 = lt" "extractClientIP (c_req c0) = cip"
    using assms(5) by simp_all
  define l where "l = \<lparr>count = 1, resetTime = c_now c0 + RATE_LIMIT_WINDOW\<rparr>"
  have k: "checkInMemoryRateLimit e (c_now c0) (extractClientIP (c_req c0)) lt (inMemoryRateLimitMap st) =
     (\<lparr>allowed = True, remaining = maxRequestsOf e lt - 1,
       resetTime = c_now c0 + RATE_LIMIT_WINDOW, retryAfter = None\<rparr>,
      (inMemoryRateLimitMap st)(limiterKeyOf lt cip \<mapsto> l))"
    unfolding c(2) l_def using assms(3) by (rule checkInMemory_fresh)
  note G = middleware_in_memory [OF assms(1,2) k g]
  have run: "fst (run_requests e remote (c0 # cs) st) = res # fst (run_requests e remote cs st1)"
    using g c(1) by (simp add: split_beta)
  show ?thesis
  proof (cases i)
    case 0
    then show ?thesis using run G assms(4) by simp
  next
    case (Suc j)
    have st1: "rateLimiterInitialized st1" "\<not> useRedis st1"
      using G assms(1,2) by simp_all
    have m1: "inMemoryRateLimitMap st1 (limiterKeyOf lt cip) = Some l"
      using G by simp
    have cs: "\<forall>c \<in> set cs. c_type c = lt \<and> extractClientIP (c_req c) = cip \<and> c_now c \<le> limiter.resetTime l"
      using assms(5) by (simp add: l_def)
    have j: "j < length cs" using assms(6) Suc by simp
    have cnt: "(count l + int j < maxRequestsOf e lt) = (int i < maxRequestsOf e lt)"
      using Suc by (auto simp: l_def)
    show ?thesis
      using run_requests_in_memory_window [OF st1 m1 cs j, of e remote] run Suc cnt by simp
  qed
qed

lemma isExpired_bumped [simp]:
  "isExpired t \<lparr>val = v, expiresAt = keepExpiry entry\<rparr> = isExpired t entry"
  by (simp add: isExpired_def keepExpiry_def split: option.splits)

lemma checkRedis_window:
  assumes "redisClient st = Some client" "client (redisKeyOf lt cip) = Some entry"
    and "\<not> isExpired now entry" "\<not> incr_throws rf" "1 \<le> val entry"
  shows "checkRedisRateLimit e now rf cip lt st =
     (\<lparr>allowed = (val entry + 1 \<le> maxRequestsOf e lt),
       remaining = max 0 (maxRequestsOf e lt - (val entry + 1)),
       resetTime = now + RATE_LIMIT_WINDOW,
       retryAfter = (if val entry + 1 \<le> maxRequestsOf e lt then None
                     else Some (60 - (now mod 60000) div 1000))\<rparr>,
      st\<lparr>redisClient := Some (client(redisKeyOf lt cip \<mapsto>
            \<lparr>val = val entry + 1, expiresAt = keepExpiry entry\<rparr>))\<rparr>)"
  using assms
  by (simp add: checkRedisRateLimit_def checkRedisTry_def incr_def Let_def keepExpiry_def)

lemma checkRedis_fresh:
  assumes "redisClient st = Some client"
    and "client (redisKeyOf lt cip) = None \<or>
         (\<exists>entry. client (redisKeyOf lt cip) = Some entry \<and> isExpired now entry)"
    and "\<not> incr_throws rf" "\<not> expire_throws rf"
  shows "checkRedisRateLimit e now rf cip lt st =
     (\<lparr>allowed = (1 \<le> maxRequestsOf e lt),
       remaining = max 0 (maxRequestsOf e lt - 1),
       resetTime = now + RATE_LIMIT_WINDOW,
       retryAfter = (if 1 \<le> maxRequestsOf e lt then None
                     else Some (60 - (now mod 60000) div 1000))\<rparr>,
      st\<lparr>redisClient := Some (client(redisKeyOf lt cip \<mapsto>
            \<lparr>val = 1, expiresAt = Some (now + 3600 * 1000)\<rparr>))\<rparr>)"
  using assms
  by (auto simp: checkRedisRateLimit_def checkRedisTry_def incr_def expire_def Let_def)

lemma checkRedis_denied_retry:
  "checkRedisRateLimit e now rf cip lt st = (r, st') \<Longrightarrow> \<not> allowed r \<Longrightarrow> retryAfter r \<noteq> None"
  by (auto simp: checkRedisRateLimit_def checkRedisTry_def Let_def
      split: option.splits if_splits prod.splits sum.splits dest: checkInMemory_denied_retry)

lemma middleware_redis:
  assumes "rateLimiterInitialized st" "useRedis st" "redisClient st = Some client"
    and "checkRedisRateLimit e now rf (extractClientIP req) lt st = (r, st2)"
    and "createRateLimiter lt e remote now rf None req emptyResponse st = (res, st')"
  shows "st' = st2 \<and> next_called res = allowed r \<and>
         status res = (if allowed r then None else Some 429) \<and>
         res_headers res ''Retry-After'' = (if allowed r then None else retryAfter r) \<and>
         body res = (if allowed r then None
            else map_option (\<lambda>s. (''Too many requests. Please try again later.'', s)) (retryAfter r))"
proof -
  have "\<not> allowed r \<Longrightarrow> retryAfter r \<noteq> None"
    using assms(4) by (rule checkRedis_denied_retry)
  then show ?thesis
    using assms
    by (auto simp: createRateLimiter_def rateLimiterTry_def Let_def setHeader_def emptyResponse_def
        split: option.splits)
qed

lemma run_requests_redis_window:
  assumes "rateLimiterInitialized st" "useRedis st" "redisClient st = Some client"
    and "client (redisKeyOf lt cip) = Some entry" "1 \<le> val entry"
    and "\<forall>c \<in> set calls. c_type c = lt \<and> extractClientIP (c_req c) = cip \<and>
           \<not> isExpired (c_now c) entry \<and> \<not> incr_throws (c_faults c)"
    and "i < length calls"
  shows "next_called (fst (run_requests e remote calls st) ! i) = (val entry + int i < maxRequestsOf e lt) \<and>
         status (fst (run_requests e remote calls st) ! i) =
           (if val entry + int i < maxRequestsOf e lt then None else Some 429)"
  using assms
proof (induction calls arbitrary: st client entry i)
  case Nil
  then show ?case by simp
next
  case (Cons c cs)
  obtain res st1 where g: "createRateLimiter lt e remote (c_now c) (c_faults c) None (c_req c)
      emptyResponse st = (res, st1)"
    by (cases "createRateLimiter lt e remote (c_now c) (c_faults c) None (c_req c) emptyResponse st")
  have c: "c_type c = lt" "extractClientIP (c_req c) = cip" "\<not> isExpired (c_now c) entry"
      "\<not> incr_throws (c_faults c)"
    using Cons.prems(6) by simp_all
  define entry' where "entry' = \<lparr>val = val entry + 1, expiresAt = keepExpiry entry\<rparr>"
  define client' where "client' = client(redisKeyOf lt cip \<mapsto> entry')"
  note K = checkRedis_window [OF Cons.prems(3,4) c(3,4) Cons.prems(5), of e, folded entry'_def client'_def]
  note G = middleware_redis [OF Cons.prems(1,2,3) K [folded c(2)] g]
  have run: "fst (run_requests e remote (c # cs) st) = res # fst (run_requests e remote cs st1)"
    using g c(1) by (simp add: split_beta)
  show ?case
  proof (cases i)
    case 0
    then show ?thesis using run G by auto
  next
    case (Suc j)
    have st1: "rateLimiterInitialized st1" "useRedis st1" "redisClient st1 = Some client'"
      using G Cons.prems(1,2) by simp_all
    have m1: "client' (redisKeyOf lt cip) = Some entry'" "1 \<le> val entry'"
      using Cons.prems(5) by (simp_all add: client'_def entry'_def)
    have cs: "\<forall>c \<in> set cs. c_type c = lt \<and> extractClientIP (c_req c) = cip \<and>
           \<not> isExpired (c_now c) entry' \<and> \<not> incr_throws (c_faults c)"
      using Cons.prems(6) by (simp add: entry'_def)
    have j: "j < length cs" using Cons.prems(7) Suc by simp
    have cnt: "(val entry' + int j < maxRequestsOf e lt) = (val entry + int i < maxRequestsOf e lt)"
      using Suc by (auto simp: entry'_def)
    show ?thesis
      using Cons.IH [OF st1 m1 cs j] run Suc cnt by simp
  qed
qed

lemma run_requests_redis_fresh:
  assumes "rateLimiterInitialized st" "useRedis st" "redisClient st = Some client"
    and "client (redisKeyOf lt cip) = None \<or>
         (\<exists>entry. client (redisKeyOf lt cip) = Some entry \<and> isExpired (c_now c0) entry)"
    and "\<forall>c \<in> set (c0 # cs). c_type c = lt \<and> extractClientIP (c_req c) = cip \<and>
           c_now c \<le> c_now c0 + RATE_LIMIT_WINDOW \<and>
           \<not> incr_throws (c_faults c) \<and> \<not> expire_throws (c_faults c)"
    and "i < length (c0 # cs)"
  shows "next_called (fst (run_requests e remote (c0 # cs) st) ! i) = (int i < maxRequestsOf e lt) \<and>
         status (fst (run_requests e remote (c0 # cs) st) ! i) =
           (if int i < maxRequestsOf e lt then None else Some 429)"
proof -
  obtain res st1 where g: "createRateLimiter lt e remote (c_now c0) (c_faults c0) None (c_req c0)
      emptyResponse st = (res, st1)"
    by (cases "createRateLimiter lt e remote (c_now c0) (c_faults c0) None (c_req c0) emptyResponse st")
  have c: "c_type c0 = lt" "extractClientIP (c_req c0) = cip" "\<not> incr_throws (c_faults c0)"
      "\<not> expire_throws (c_faults c0)"
    using assms(5) by simp_all
  define entry where "entry = \<lparr>val = 1, expiresAt = Some (c_now c0 + 3600 * 1000)\<rparr>"
  define client' where "client' = client(redisKeyOf lt cip \<mapsto> entry)"
  note K = checkRedis_fresh [OF assms(3,4) c(3,4), of e, folded entry_def client'_def]
  note G = middleware_redis [OF assms(1,2,3) K [folded c(2)] g]
  have run: "fst (run_requests e remote (c0 # cs) st) = res # fst (run_requests e remote cs st1)"
    using g c(1) by (simp add: split_beta)
  show ?thesis
  proof (cases i)
    case 0
    then show ?thesis using run G by auto
  next
    case (Suc j)
    have st1: "rateLimiterInitialized st1" "useRedis st1" "redisClient st1 = Some client'"
      using G assms(1,2) by simp_all
    have m1: "client' (redisKeyOf lt cip) = Some entry" "1 \<le> val entry"
      by (simp_all add: client'_def entry_def)
    have cs: "\<forall>c \<in> set cs. c_type c = lt \<and> extractClientIP (c_req c) = cip \<and>
           \<not> isExpired (c_now c) entry \<and> \<not> incr_throws (c_faults c)"
      using assms(5) by (auto simp: entry_def isExpired_def RATE_LIMIT_WINDOW_def)
    have j: "j < length cs" using assms(6) Suc by simp
    have cnt: "(val entry + int j < maxRequestsOf e lt) = (int i < maxRequestsOf e lt)"
      using Suc by (auto simp: entry_def)
    show ?thesis
      using run_requests_redis_window [OF st1 m1 cs j, of e remote] run Suc cnt by simp
  qed
qed

lemma xff_example: "extractClientIP (forwardedRequest ''9.9.9.9, 10.0.0.1'') = ''9.9.9.9''"
  by (simp add: extractClientIP_def forwardedRequest_def trim_def isWhiteSpace_def)

subsection \<open>Falling back from Redis\<close>


lemma initializeRedis_done: "rateLimiterInitialized st \<Longrightarrow> initializeRedis e remote rf st = st"
  by (simp add: initializeRedis_def)







lemma redisEnv_limit: "maxRequestsOf redisEnv ''processing'' = 10"
  by (simp add: maxRequestsOf_def PROCESSING_RATE_LIMIT_MAX_REQUESTS_def parseIntEnv_def
      parseInt_undefined orDefault_def redisEnv_def emptyEnv_def)


subsection \<open>Client identity\<close>

lemma trim_empty_iff: "trim s = [] \<longleftrightarrow> (\<forall>c \<in> set s. isWhiteSpace c)"
proof -
  have "trim s = [] \<longleftrightarrow> (\<forall>c \<in> set (dropWhile isWhiteSpace s). isWhiteSpace c)"
    by (simp add: trim_def dropWhile_eq_Nil_conv)
  also have "\<dots> \<longleftrightarrow> dropWhile isWhiteSpace s = []"
    by (metis hd_dropWhile list.set_sel(1) empty_iff list.set(1))
  also have "\<dots> \<longleftrightarrow> (\<forall>c \<in> set s. isWhiteSpace c)"
    by (simp add: dropWhile_eq_Nil_conv)
  finally show ?thesis .
qed

lemma trim_strips:
  "\<exists>a b. s = a @ trim s @ b \<and> (\<forall>c \<in> set a. isWhiteSpace c) \<and> (\<forall>c \<in> set b. isWhiteSpace c)"
proof -
  let ?t = "dropWhile isWhiteSpace s"
  let ?a = "takeWhile isWhiteSpace s"
  let ?b = "rev (takeWhile isWhiteSpace (rev ?t))"
  have "rev ?t = takeWhile isWhiteSpace (rev ?t) @ dropWhile isWhiteSpace (rev ?t)" by simp
  then have "?t = rev (takeWhile isWhiteSpace (rev ?t) @ dropWhile isWhiteSpace (rev ?t))"
    by (metis rev_rev_ident)
  then have t: "?t = trim s @ ?b" by (simp only: trim_def rev_append)
  have "s = ?a @ ?t" by simp
  then have "s = ?a @ trim s @ ?b" using t by simp
  moreover have "\<forall>c \<in> set ?a. isWhiteSpace c" by (auto dest: set_takeWhileD)
  moreover have "\<forall>c \<in> set ?b. isWhiteSpace c" by (auto dest: set_takeWhileD)
  ultimately show ?thesis by blast
qed

lemma trim_ends:
  assumes "trim s \<noteq> []"
  shows "\<not> isWhiteSpace (hd (trim s)) \<and> \<not> isWhiteSpace (last (trim s))"
proof -
  let ?t = "dropWhile isWhiteSpace s"
  let ?u = "dropWhile isWhiteSpace (rev ?t)"
  have u: "?u \<noteq> []" using assms by (simp add: trim_def)
  then have "\<not> isWhiteSpace (hd ?u)" by (rule hd_dropWhile)
  then have last: "\<not> isWhiteSpace (last (trim s))"
    using u by (simp add: trim_def last_rev)
  have "rev ?t = takeWhile isWhiteSpace (rev ?t) @ ?u" by simp
  then have "?t = rev (takeWhile isWhiteSpace (rev ?t) @ ?u)" by (metis rev_rev_ident)
  then have t: "?t = trim s @ rev (takeWhile isWhiteSpace (rev ?t))"
    by (simp only: trim_def rev_append)
  then have "?t \<noteq> []" using assms by (metis append_is_Nil_conv)
  then have "\<not> isWhiteSpace (hd ?t)" by (rule hd_dropWhile)
  moreover have "hd ?t = hd (trim s)" using t assms by (metis hd_append2)
  ultimately show ?thesis using last by simp
qed

lemma takeWhile_first_entry:
  "CHR '','' \<notin> set entry \<Longrightarrow> takeWhile (\<lambda>c. c \<noteq> CHR '','') (entry @ CHR '','' # rest) = entry"
  by (induction entry) auto

lemma takeWhile_only_entry:
  "CHR '','' \<notin> set x \<Longrightarrow> takeWhile (\<lambda>c. c \<noteq> CHR '','') x = x"
  by (induction x) auto

subsection \<open>Expiry of a window\<close>


subsection \<open>The retry hint\<close>

lemma ceilSeconds_spec: "1000 * ceilSeconds x - 1000 < x \<and> x \<le> 1000 * ceilSeconds x"
proof -
  define q where "q = (- x) div 1000"
  define r where "r = (- x) mod 1000"
  have r: "0 \<le> r" "r < 1000" by (simp_all add: r_def)
  have x: "- x = 1000 * q + r" by (simp add: q_def r_def)
  have "- (1000 * q) - 1000 < x" using r x by linarith
  moreover have "x \<le> - (1000 * q)" using r x by linarith
  ultimately show ?thesis by (simp add: ceilSeconds_def q_def)
qed

lemma checkInMemory_denied:
  assumes "checkInMemoryRateLimit e now cip lt m = (r, m')" "\<not> allowed r"
  shows "\<exists>l. m (limiterKeyOf lt cip) = Some l \<and> now \<le> limiter.resetTime l \<and>
             maxRequestsOf e lt \<le> count l \<and> m' = m \<and>
             r = \<lparr>allowed = False, remaining = 0, resetTime = limiter.resetTime l,
                   retryAfter = Some (ceilSeconds (limiter.resetTime l - now))\<rparr>"
  using assms
  by (auto simp: checkInMemoryRateLimit_def Let_def split: option.splits if_splits)

subsection \<open>Isolation of counters\<close>

lemma limiterKeyOf_inject:
  assumes "isNamespace lt" "isNamespace lt'"
  shows "limiterKeyOf lt cip = limiterKeyOf lt' cip' \<longleftrightarrow> lt = lt' \<and> cip = cip'"
  using assms by (auto simp: limiterKeyOf_def isNamespace_def)

lemma redisKeyOf_inject:
  assumes "isNamespace lt" "isNamespace lt'"
  shows "redisKeyOf lt cip = redisKeyOf lt' cip' \<longleftrightarrow> lt = lt' \<and> sanitizeIP cip = sanitizeIP cip'"
  using assms by (auto simp: redisKeyOf_def isNamespace_def)

lemma checkInMemory_frame:
  "k \<noteq> limiterKeyOf lt cip \<Longrightarrow> snd (checkInMemoryRateLimit e now cip lt m) k = m k"
  by (simp add: checkInMemoryRateLimit_def Let_def split: option.splits)

lemma checkInMemory_own_entry:
  assumes "m (limiterKeyOf lt cip) = m' (limiterKeyOf lt cip)"
  shows "fst (checkInMemoryRateLimit e now cip lt m) = fst (checkInMemoryRateLimit e now cip lt m') \<and>
         snd (checkInMemoryRateLimit e now cip lt m) (limiterKeyOf lt cip) =
         snd (checkInMemoryRateLimit e now cip lt m') (limiterKeyOf lt cip)"
  using assms by (simp add: checkInMemoryRateLimit_def Let_def split: option.splits)

lemma resultsFor_Cons:
  "resultsFor P (c # cs) (r # rs) = (if P c then r # resultsFor P cs rs else resultsFor P cs rs)"
  by (simp add: resultsFor_def)

lemma run_in_memory_projection:
  assumes "m K = m' K"
  shows "resultsFor (\<lambda>c. callKey c = K) calls (run_in_memory e calls m) =
         run_in_memory e (filter (\<lambda>c. callKey c = K) calls) m'"
  using assms
proof (induction calls arbitrary: m m')
  case Nil
  then show ?case by (simp add: resultsFor_def)
next
  case (Cons c cs)
  let ?k = "checkInMemoryRateLimit e (c_now c) (extractClientIP (c_req c)) (c_type c)"
  show ?case
  proof (cases "callKey c = K")
    case True
    have own: "fst (?k m) = fst (?k m')" "snd (?k m) K = snd (?k m') K"
      using checkInMemory_own_entry [of m "c_type c" "extractClientIP (c_req c)" m' e "c_now c"]
        Cons.prems True by (simp_all add: callKey_def)
    show ?thesis
      using True own(1) Cons.IH [of "snd (?k m)" "snd (?k m')"] own(2)
      by (simp add: split_beta resultsFor_Cons)
  next
    case False
    have "snd (?k m) K = m' K"
      using checkInMemory_frame [of K "c_type c" "extractClientIP (c_req c)" e "c_now c" m]
        False Cons.prems by (simp add: callKey_def)
    then show ?thesis
      using False Cons.IH [of "snd (?k m)" m'] by (simp add: split_beta resultsFor_Cons)
  qed
qed

lemma agreeOn_refl: "agreeOn rk lk st st"
  by (simp add: agreeOn_def split: option.splits)

lemma agreeOn_trans: "agreeOn rk lk a b \<Longrightarrow> agreeOn rk lk b c \<Longrightarrow> agreeOn rk lk a c"
  by (auto simp: agreeOn_def split: option.splits)

lemma incr_own_entry:
  assumes "client k = client' k"
  shows "fst (incr now k client) = fst (incr now k client') \<and>
         snd (incr now k client) k = snd (incr now k client') k"
  using assms by (simp add: incr_def Let_def split: option.splits)

lemma incr_frame: "k' \<noteq> k \<Longrightarrow> snd (incr now k client) k' = client k'"
  by (simp add: incr_def Let_def split: option.splits)

lemma expire_own_entry:
  assumes "client k = client' k"
  shows "snd (expire now k secs client) k = snd (expire now k secs client') k"
  using assms by (simp add: expire_def split: option.splits)

lemma expire_frame: "k' \<noteq> k \<Longrightarrow> snd (expire now k secs client) k' = client k'"
  by (simp add: expire_def split: option.splits)

lemma checkRedisTry_keeps:
  "inMemoryRateLimitMap (snd (checkRedisTry e now rf cip lt st)) = inMemoryRateLimitMap st \<and>
   (redisClient (snd (checkRedisTry e now rf cip lt st)) = None \<longleftrightarrow> redisClient st = None)"
  by (simp add: checkRedisTry_def Let_def split_beta split: option.splits)

lemma checkRedisTry_frame:
  assumes "redisKeyOf lt cip \<noteq> rk"
  shows "agreeOn rk lk (snd (checkRedisTry e now rf cip lt st)) st"
proof (cases "redisClient st")
  case None
  then show ?thesis by (simp add: checkRedisTry_def agreeOn_def)
next
  case (Some client)
  let ?i = "incr now (redisKeyOf lt cip) client"
  have i: "snd ?i rk = client rk" using assms by (simp add: incr_frame)
  have x: "snd (expire now (redisKeyOf lt cip) 3600 (snd ?i)) rk = client rk"
    using assms i by (simp add: expire_frame)
  show ?thesis
    using Some i x by (simp add: checkRedisTry_def agreeOn_def Let_def split_beta)
qed

lemma checkRedisTry_own_entry:
  assumes "agreeOn (redisKeyOf lt cip) lk st st'"
  shows "fst (checkRedisTry e now rf cip lt st) = fst (checkRedisTry e now rf cip lt st') \<and>
         agreeOn (redisKeyOf lt cip) lk (snd (checkRedisTry e now rf cip lt st))
           (snd (checkRedisTry e now rf cip lt st'))"
proof (cases "redisClient st")
  case None
  then have "redisClient st' = None"
    using assms by (simp add: agreeOn_def split: option.splits)
  then show ?thesis using None assms by (simp add: checkRedisTry_def agreeOn_def)
next
  case (Some client)
  then obtain client' where c': "redisClient st' = Some client'"
      and eq: "client (redisKeyOf lt cip) = client' (redisKeyOf lt cip)"
    using assms by (auto simp: agreeOn_def split: option.splits)
  have m: "inMemoryRateLimitMap st lk = inMemoryRateLimitMap st' lk"
    using assms by (simp add: agreeOn_def)
  let ?k = "redisKeyOf lt cip"
  note I = incr_own_entry [where client = client and client' = client' and k = ?k and now = now,
      OF eq]
  have X: "snd (expire now ?k 3600 (snd (incr now ?k client))) ?k =
           snd (expire now ?k 3600 (snd (incr now ?k client'))) ?k"
    using I expire_own_entry [where client = "snd (incr now ?k client)"
        and client' = "snd (incr now ?k client')" and k = ?k and now = now and secs = 3600]
    by simp
  show ?thesis
    using Some c' I X m eq by (simp add: checkRedisTry_def agreeOn_def Let_def split_beta)
qed

lemma checkRedis_frame:
  assumes "redisKeyOf lt cip \<noteq> rk" "limiterKeyOf lt cip \<noteq> lk"
  shows "agreeOn rk lk (snd (checkRedisRateLimit e now rf cip lt st)) st"
proof -
  let ?t = "checkRedisTry e now rf cip lt st"
  note F = checkRedisTry_frame [OF assms(1), of lk e now rf st]
  note K = checkRedisTry_keeps [of e now rf cip lt st]
  show ?thesis
  proof (cases "fst ?t")
    case (Inr r)
    then show ?thesis using F by (simp add: checkRedisRateLimit_def split_beta)
  next
    case (Inl err)
    have "snd (checkInMemoryRateLimit e now cip lt (inMemoryRateLimitMap (snd ?t))) lk =
        inMemoryRateLimitMap st lk"
      using assms(2) K by (simp add: checkInMemory_frame)
    then show ?thesis
      using Inl F by (simp add: checkRedisRateLimit_def split_beta agreeOn_def)
  qed
qed

lemma checkRedis_own_entry:
  assumes "agreeOn (redisKeyOf lt cip) (limiterKeyOf lt cip) st st'"
  shows "fst (checkRedisRateLimit e now rf cip lt st) = fst (checkRedisRateLimit e now rf cip lt st') \<and>
         agreeOn (redisKeyOf lt cip) (limiterKeyOf lt cip)
           (snd (checkRedisRateLimit e now rf cip lt st)) (snd (checkRedisRateLimit e now rf cip lt st'))"
proof -
  let ?t = "checkRedisTry e now rf cip lt st"
  let ?t' = "checkRedisTry e now rf cip lt st'"
  note O = checkRedisTry_own_entry [OF assms, of e now rf]
  show ?thesis
  proof (cases "fst ?t")
    case (Inr r)
    then show ?thesis using O by (simp add: checkRedisRateLimit_def split_beta)
  next
    case (Inl err)
    have "inMemoryRateLimitMap (snd ?t) (limiterKeyOf lt cip) =
          inMemoryRateLimitMap (snd ?t') (limiterKeyOf lt cip)"
      using O by (simp add: agreeOn_def)
    note M = checkInMemory_own_entry [where m = "inMemoryRateLimitMap (snd ?t)"
        and m' = "inMemoryRateLimitMap (snd ?t')" and lt = lt and cip = cip and e = e and now = now,
        OF this]
    show ?thesis
      using Inl O M by (simp add: checkRedisRateLimit_def split_beta agreeOn_def)
  qed
qed

lemma run_redis_projection:
  assumes "agreeOn rk lk st st'"
    and "\<forall>c \<in> set calls. if P c then callRedisKey c = rk \<and> callKey c = lk
                          else callRedisKey c \<noteq> rk \<and> callKey c \<noteq> lk"
  shows "resultsFor P calls (run_redis e calls st) = run_redis e (filter P calls) st'"
  using assms
proof (induction calls arbitrary: st st')
  case Nil
  then show ?case by (simp add: resultsFor_def)
next
  case (Cons c cs)
  let ?k = "checkRedisRateLimit e (c_now c) (c_faults c) (extractClientIP (c_req c)) (c_type c)"
  have rest: "\<forall>c \<in> set cs. if P c then callRedisKey c = rk \<and> callKey c = lk
                          else callRedisKey c \<noteq> rk \<and> callKey c \<noteq> lk"
    using Cons.prems(2) by simp
  show ?case
  proof (cases "P c")
    case True
    then have keys: "redisKeyOf (c_type c) (extractClientIP (c_req c)) = rk"
        "limiterKeyOf (c_type c) (extractClientIP (c_req c)) = lk"
      using Cons.prems(2) by (simp_all add: callRedisKey_def callKey_def)
    have own: "fst (?k st) = fst (?k st')" "agreeOn rk lk (snd (?k st)) (snd (?k st'))"
      using checkRedis_own_entry [of "c_type c" "extractClientIP (c_req c)" st st' e "c_now c" "c_faults c"]
        Cons.prems(1) keys by simp_all
    show ?thesis
      using True own(1) Cons.IH [OF own(2) rest] by (simp add: split_beta resultsFor_Cons)
  next
    case False
    then have keys: "redisKeyOf (c_type c) (extractClientIP (c_req c)) \<noteq> rk"
        "limiterKeyOf (c_type c) (extractClientIP (c_req c)) \<noteq> lk"
      using Cons.prems(2) by (simp_all add: callRedisKey_def callKey_def)
    have "agreeOn rk lk (snd (?k st)) st" using keys by (rule checkRedis_frame)
    then have "agreeOn rk lk (snd (?k st)) st'" using Cons.prems(1) by (rule agreeOn_trans)
    then show ?thesis
      using False Cons.IH [OF _ rest] by (simp add: split_beta resultsFor_Cons)
  qed
qed

lemma resultsFor_cong:
  assumes "\<forall>c \<in> set calls. P c = Q c"
  shows "resultsFor P calls rs = resultsFor Q calls rs"
proof -
  have "filter (\<lambda>p. P (fst p)) (zip calls rs) = filter (\<lambda>p. Q (fst p)) (zip calls rs)"
    using assms by (intro filter_cong refl) (auto dest: set_zip_leftD)
  then show ?thesis by (simp add: resultsFor_def)
qed

lemma run_length_redis: "length (run_redis e calls st) = length calls"
  by (induction calls arbitrary: st) (simp_all add: split_beta)

lemma mixedTraffic_own:
  "filter (forCounter ''processing'' ''9.9.9.9'') mixedTraffic =
     [Call ''processing'' 1000 (forwardedRequest ''9.9.9.9, 10.0.0.1'') noFaults,
      Call ''processing'' 1003 (forwardedRequest ''9.9.9.9'') noFaults]"
  by (simp add: mixedTraffic_def forCounter_def extractClientIP_def forwardedRequest_def trim_def
      isWhiteSpace_def)

subsection \<open>The first request of a process\<close>

lemma initializeRedis_initialized:
  "rateLimiterInitialized (initializeRedis e remote rf st)"
  by (simp add: initializeRedis_def Let_def)

lemma middleware_after_init:
  "createRateLimiter lt e remote now rf fault req res st =
   createRateLimiter lt e remote now rf fault req res (initializeRedis e remote rf st)"
proof (cases "rateLimiterInitialized st")
  case True
  then show ?thesis by (simp add: initializeRedis_done)
next
  case False
  then show ?thesis
    by (simp add: createRateLimiter_def rateLimiterTry_def initializeRedis_initialized)
qed

lemma run_requests_after_init:
  "run_requests e remote (c # cs) st = run_requests e remote (c # cs) (initializeRedis e remote (c_faults c) st)"
  using middleware_after_init [of "c_type c" e remote "c_now c" "c_faults c" None "c_req c" emptyResponse st]
  by simp

lemma burst_sameWindow11: "sameWindow ''processing'' ''9.9.9.9'' 1000 (burst rf 11)"
  by (simp add: sameWindow_def burst_def xff_example RATE_LIMIT_WINDOW_def upt_rec)

lemma burst_first_faults: "0 < n \<Longrightarrow> c_faults (hd (burst rf n)) = rf"
  by (cases n) (simp_all add: burst_def upt_rec)

subsection \<open>What a denied request is told\<close>

text \<open>What the in-memory backend returns when it denies a request, and what the middleware
  sends then: the ceiling of the time left in the window, which is at least 1 exactly
  when \<open>now\<close> is before \<^verbatim>\<open>resetTime\<close>.\<close>

lemma retry_after_in_memory:
  assumes "checkInMemoryRateLimit e now clientIP limiterType m = (r, m')"
    and "\<not> allowed r"
    and "rateLimiterInitialized st" "\<not> useRedis st" "inMemoryRateLimitMap st = m"
    and "extractClientIP req = clientIP"
    and "createRateLimiter limiterType e remote now rf None req emptyResponse st = (res, st')"
  shows "(\<exists>l. m (limiterKeyOf limiterType clientIP) = Some l \<and>
              rate_result.resetTime r = limiter.resetTime l) \<and>
         retryAfter r = Some (ceilSeconds (rate_result.resetTime r - now)) \<and>
         1000 * ceilSeconds (rate_result.resetTime r - now) - 1000 < rate_result.resetTime r - now \<and>
         rate_result.resetTime r - now \<le> 1000 * ceilSeconds (rate_result.resetTime r - now) \<and>
         0 \<le> ceilSeconds (rate_result.resetTime r - now) \<and>
         (1 \<le> ceilSeconds (rate_result.resetTime r - now) \<longleftrightarrow> now < rate_result.resetTime r) \<and>
         status res = Some 429 \<and>
         res_headers res ''Retry-After'' = Some (ceilSeconds (rate_result.resetTime r - now)) \<and>
         body res = Some (''Too many requests. Please try again later.'',
                          ceilSeconds (rate_result.resetTime r - now))"
proof -
  obtain l where l: "m (limiterKeyOf limiterType clientIP) = Some l" "now \<le> limiter.resetTime l"
      "r = \<lparr>allowed = False, remaining = 0, resetTime = limiter.resetTime l,
            retryAfter = Some (ceilSeconds (limiter.resetTime l - now))\<rparr>"
    using checkInMemory_denied [OF assms(1,2)] by blast
  have rt: "rate_result.resetTime r = limiter.resetTime l"
      "retryAfter r = Some (ceilSeconds (rate_result.resetTime r - now))"
    using l(3) by simp_all
  have k: "checkInMemoryRateLimit e now (extractClientIP req) limiterType (inMemoryRateLimitMap st) = (r, m')"
    using assms(1,5,6) by simp
  note G = middleware_in_memory [OF assms(3,4) k assms(7)]
  have ge: "0 \<le> ceilSeconds (rate_result.resetTime r - now)"
    using l(2) rt(1) ceilSeconds_spec [of "rate_result.resetTime r - now"] by linarith
  have one: "1 \<le> ceilSeconds (rate_result.resetTime r - now) \<longleftrightarrow> now < rate_result.resetTime r"
    using ceilSeconds_spec [of "rate_result.resetTime r - now"] by linarith
  show ?thesis
    using l(1) rt G assms(2) ge one ceilSeconds_spec [of "rate_result.resetTime r - now"]
    by simp
qed

lemma retry_after_in_memory_example:
  "status (fst (createRateLimiter ''processing'' emptyEnv Map.empty 1000 noFaults None
      (forwardedRequest ''9.9.9.9, 10.0.0.1'') emptyResponse
      (memoryState\<lparr>inMemoryRateLimitMap := atLimit 61000\<rparr>))) = Some 429 \<and>
   res_headers (fst (createRateLimiter ''processing'' emptyEnv Map.empty 1000 noFaults None
      (forwardedRequest ''9.9.9.9, 10.0.0.1'') emptyResponse
      (memoryState\<lparr>inMemoryRateLimitMap := atLimit 61000\<rparr>))) ''Retry-After'' = Some 60"
proof -
  let ?st = "memoryState\<lparr>inMemoryRateLimitMap := atLimit 61000\<rparr>"
  let ?k = "checkInMemoryRateLimit emptyEnv 1000 ''9.9.9.9'' ''processing'' (atLimit 61000)"
  let ?g = "createRateLimiter ''processing'' emptyEnv Map.empty 1000 noFaults None
      (forwardedRequest ''9.9.9.9, 10.0.0.1'') emptyResponse ?st"
  have k: "?k = (\<lparr>allowed = False, remaining = 0, resetTime = 61000, retryAfter = Some 60\<rparr>,
      atLimit 61000)"
    by (simp add: checkInMemoryRateLimit_def atLimit_def maxRequestsOf_def default_limits
        ceilSeconds_def)
  have a: "\<not> allowed \<lparr>allowed = False, remaining = 0, resetTime = 61000, retryAfter = Some 60\<rparr>"
    by simp
  have b: "rateLimiterInitialized ?st" "\<not> useRedis ?st" "inMemoryRateLimitMap ?st = atLimit 61000"
    by (simp_all add: memoryState_def initialState_def)
  have g: "?g = (fst ?g, snd ?g)" by simp
  show ?thesis
    using retry_after_in_memory [OF k a b xff_example g] by (simp add: ceilSeconds_def)
qed

section \<open>The claims\<close>

text \<open>
  Claim C1. For every client identity and every namespace, within a single window each of
  the first \<open>limit\<close> requests is allowed (the middleware calls \<^verbatim>\<open>next()\<close>) and every further
  request in that window, the \<open>(limit+1)\<close>-th in particular, is rejected with status 429,
  under the in-memory backend and under the Redis backend. The limit is the positive limit
  of the namespace; the backend is the one in use once the module is initialised, and
  under Redis the calls to the store answer.
\<close>

theorem first_requests_allowed_rest_denied:
  assumes "1 \<le> maxRequestsOf e limiterType"
    and "sameWindow limiterType clientIP t0 calls"
    and "st1 = initializeRedis e remote (c_faults (hd calls)) st"
    and "windowStarts st1 limiterType clientIP t0"
    and "useRedis st1 \<Longrightarrow> list_all redisAnswers calls"
    and "i < length calls"
  shows "next_called (fst (run_requests e remote calls st) ! i) = (int i < maxRequestsOf e limiterType) \<and>
         status (fst (run_requests e remote calls st) ! i) =
           (if int i < maxRequestsOf e limiterType then None else Some 429)"
proof -
  obtain c0 cs where calls: "calls = c0 # cs"
    using assms(2) by (cases calls) (auto simp: sameWindow_def)
  have t0: "c_now c0 = t0" using assms(2) calls by (simp add: sameWindow_def)
  have all: "\<forall>c \<in> set (c0 # cs). c_type c = limiterType \<and> extractClientIP (c_req c) = clientIP \<and>
           c_now c \<le> c_now c0 + RATE_LIMIT_WINDOW"
    using assms(2) calls t0 by (simp add: sameWindow_def list_all_iff)
  have init: "rateLimiterInitialized st1"
    using assms(3) by (simp add: initializeRedis_initialized)
  have run: "run_requests e remote calls st = run_requests e remote (c0 # cs) st1"
    unfolding calls using assms(3) calls run_requests_after_init [of e remote c0 cs st] by simp
  have i: "i < length (c0 # cs)" using assms(6) calls by simp
  show ?thesis
  proof (cases "useRedis st1")
    case False
    have fresh: "inMemoryRateLimitMap st1 (limiterKeyOf limiterType clientIP) = None \<or>
         (\<exists>l. inMemoryRateLimitMap st1 (limiterKeyOf limiterType clientIP) = Some l \<and>
              limiter.resetTime l < c_now c0)"
      using assms(4) False t0
      by (auto simp: windowStarts_def memoryWindowStarts_def split: option.splits)
    show ?thesis
      unfolding run
      using run_requests_in_memory_fresh [OF init False fresh assms(1) all i] by blast
  next
    case True
    obtain client where cl: "redisClient st1 = Some client"
      using assms(4) True by (auto simp: windowStarts_def split: option.splits)
    have fresh: "client (redisKeyOf limiterType clientIP) = None \<or>
         (\<exists>entry. client (redisKeyOf limiterType clientIP) = Some entry \<and> isExpired (c_now c0) entry)"
      using assms(4) True t0 cl by (auto simp: windowStarts_def split: option.splits)
    have all': "\<forall>c \<in> set (c0 # cs). c_type c = limiterType \<and> extractClientIP (c_req c) = clientIP \<and>
           c_now c \<le> c_now c0 + RATE_LIMIT_WINDOW \<and>
           \<not> incr_throws (c_faults c) \<and> \<not> expire_throws (c_faults c)"
      using all assms(5) [OF True] calls by (simp add: list_all_iff redisAnswers_def)
    show ?thesis
      unfolding run
      using run_requests_redis_fresh [OF init True cl fresh all' i] by blast
  qed
qed

theorem first_requests_allowed_rest_denied_witness:
  "next_called (fst (run_requests emptyEnv Map.empty (burst noFaults 11) initialState) ! 9) \<and>
   status (fst (run_requests emptyEnv Map.empty (burst noFaults 11) initialState) ! 10) = Some 429 \<and>
   next_called (fst (run_requests redisEnv Map.empty (burst noFaults 11) initialState) ! 9) \<and>
   status (fst (run_requests redisEnv Map.empty (burst noFaults 11) initialState) ! 10) = Some 429"
proof -
  have f: "c_faults (hd (burst noFaults 11)) = noFaults" by (simp add: burst_first_faults)
  have b1: "1 \<le> maxRequestsOf emptyEnv ''processing''"
    by (simp add: maxRequestsOf_def default_limits)
  have b2: "1 \<le> maxRequestsOf redisEnv ''processing''" by (simp add: redisEnv_limit)
  have s1: "memoryState = initializeRedis emptyEnv Map.empty (c_faults (hd (burst noFaults 11))) initialState"
    unfolding f
    by (simp add: initializeRedis_def initialState_def memoryState_def emptyEnv_def truthy_def)
  have s2: "redisState = initializeRedis redisEnv Map.empty (c_faults (hd (burst noFaults 11))) initialState"
    unfolding f
    by (simp add: initializeRedis_def initialState_def redisState_def redisEnv_def emptyEnv_def
        truthy_def noFaults_def Let_def)
  have d1: "windowStarts memoryState ''processing'' ''9.9.9.9'' 1000"
    by (simp add: windowStarts_def memoryWindowStarts_def memoryState_def initialState_def)
  have e1: "useRedis memoryState \<Longrightarrow> list_all redisAnswers (burst noFaults 11)"
    by (simp add: memoryState_def initialState_def)
  have d2: "windowStarts redisState ''processing'' ''9.9.9.9'' 1000"
    by (simp add: windowStarts_def redisState_def initialState_def)
  have e2: "useRedis redisState \<Longrightarrow> list_all redisAnswers (burst noFaults 11)"
    by (simp add: burst_def redisAnswers_def noFaults_def list_all_iff)
  have l: "length (burst noFaults 11) = 11" by (simp add: burst_def)
  have m: "maxRequestsOf emptyEnv ''processing'' = 10"
    by (simp add: maxRequestsOf_def default_limits)
  show ?thesis
    using first_requests_allowed_rest_denied [OF b1 burst_sameWindow11 s1 d1 e1, of 9]
          first_requests_allowed_rest_denied [OF b1 burst_sameWindow11 s1 d1 e1, of 10]
          first_requests_allowed_rest_denied [OF b2 burst_sameWindow11 s2 d2 e2, of 9]
          first_requests_allowed_rest_denied [OF b2 burst_sameWindow11 s2 d2 e2, of 10]
    by (simp add: l m redisEnv_limit)
qed



text \<open>
  Claim C3, as the code has it. A rate-limit check changes no counter entry other than
  that of its own key, and the results computed for one key (allowed, remaining,
  resetTime, retryAfter) do not depend on requests recorded under other keys, also under
  interleaved traffic. In the in-memory backend two different identities in one namespace,
  and the processing and health namespaces for one identity, always have different keys.
  In the Redis backend two identities in one namespace have different keys exactly when
  their sanitised forms differ.
\<close>

theorem counters_are_isolated:
  assumes "isNamespace limiterType"
    and "list_all (\<lambda>c. isNamespace (c_type c)) calls"
  shows "resultsFor (forCounter limiterType clientIP) calls (run_in_memory e calls m) =
           run_in_memory e (filter (forCounter limiterType clientIP) calls) m \<and>
         (list_all (\<lambda>c. forCounter limiterType clientIP c \<or>
                         callRedisKey c \<noteq> redisKeyOf limiterType clientIP) calls \<longrightarrow>
            resultsFor (forCounter limiterType clientIP) calls (run_redis e calls st) =
              run_redis e (filter (forCounter limiterType clientIP) calls) st) \<and>
         (\<forall>k. k \<noteq> limiterKeyOf limiterType clientIP \<longrightarrow>
            snd (checkInMemoryRateLimit e now clientIP limiterType m) k = m k) \<and>
         (\<forall>rk lk. rk \<noteq> redisKeyOf limiterType clientIP \<and> lk \<noteq> limiterKeyOf limiterType clientIP \<longrightarrow>
            agreeOn rk lk (snd (checkRedisRateLimit e now rf clientIP limiterType st)) st) \<and>
         (isNamespace limiterType' \<longrightarrow>
            (limiterKeyOf limiterType clientIP = limiterKeyOf limiterType' clientIP' \<longleftrightarrow>
               limiterType = limiterType' \<and> clientIP = clientIP') \<and>
            (redisKeyOf limiterType clientIP = redisKeyOf limiterType' clientIP' \<longleftrightarrow>
               limiterType = limiterType' \<and> sanitizeIP clientIP = sanitizeIP clientIP'))"
proof (intro conjI allI impI)
  let ?P = "forCounter limiterType clientIP"
  let ?lk = "limiterKeyOf limiterType clientIP"
  let ?rk = "redisKeyOf limiterType clientIP"
  have ns: "\<forall>c \<in> set calls. isNamespace (c_type c)"
    using assms(2) by (simp add: list_all_iff)
  have key: "\<forall>c \<in> set calls. (callKey c = ?lk) = ?P c"
    using ns assms(1) by (auto simp: callKey_def forCounter_def limiterKeyOf_inject)
  have "resultsFor ?P calls (run_in_memory e calls m) =
      resultsFor (\<lambda>c. callKey c = ?lk) calls (run_in_memory e calls m)"
    using key by (intro resultsFor_cong) simp
  also have "\<dots> = run_in_memory e (filter (\<lambda>c. callKey c = ?lk) calls) m"
    by (rule run_in_memory_projection) simp
  also have "filter (\<lambda>c. callKey c = ?lk) calls = filter ?P calls"
    using key by (intro filter_cong refl) simp
  finally show "resultsFor ?P calls (run_in_memory e calls m) = run_in_memory e (filter ?P calls) m" .
  show "resultsFor ?P calls (run_redis e calls st) = run_redis e (filter ?P calls) st"
    if "list_all (\<lambda>c. ?P c \<or> callRedisKey c \<noteq> ?rk) calls"
  proof (rule run_redis_projection [where rk = ?rk and lk = ?lk])
    show "agreeOn ?rk ?lk st st" by (rule agreeOn_refl)
    show "\<forall>c \<in> set calls. if ?P c then callRedisKey c = ?rk \<and> callKey c = ?lk
                          else callRedisKey c \<noteq> ?rk \<and> callKey c \<noteq> ?lk"
      using that key by (auto simp: list_all_iff forCounter_def callRedisKey_def)
  qed
next
  fix k assume "k \<noteq> limiterKeyOf limiterType clientIP"
  then show "snd (checkInMemoryRateLimit e now clientIP limiterType m) k = m k"
    by (rule checkInMemory_frame)
next
  fix rk lk
  assume "rk \<noteq> redisKeyOf limiterType clientIP \<and> lk \<noteq> limiterKeyOf limiterType clientIP"
  then show "agreeOn rk lk (snd (checkRedisRateLimit e now rf clientIP limiterType st)) st"
    by (intro checkRedis_frame) auto
next
  assume "isNamespace limiterType'"
  then show "limiterKeyOf limiterType clientIP = limiterKeyOf limiterType' clientIP' \<longleftrightarrow>
               limiterType = limiterType' \<and> clientIP = clientIP'"
    using assms(1) by (simp add: limiterKeyOf_inject)
next
  assume "isNamespace limiterType'"
  then show "redisKeyOf limiterType clientIP = redisKeyOf limiterType' clientIP' \<longleftrightarrow>
               limiterType = limiterType' \<and> sanitizeIP clientIP = sanitizeIP clientIP'"
    using assms(1) by (simp add: redisKeyOf_inject)
qed

theorem counters_are_isolated_witness:
  "map remaining (resultsFor (forCounter ''processing'' ''9.9.9.9'') mixedTraffic
      (run_in_memory emptyEnv mixedTraffic Map.empty)) = [9, 8] \<and>
   map remaining (resultsFor (forCounter ''processing'' ''9.9.9.9'') mixedTraffic
      (run_redis emptyEnv mixedTraffic redisState)) = [9, 8]"
proof -
  have a: "isNamespace ''processing''" by (simp add: isNamespace_def)
  have b: "list_all (\<lambda>c. isNamespace (c_type c)) mixedTraffic"
    by (simp add: mixedTraffic_def isNamespace_def)
  have c: "list_all (\<lambda>c. forCounter ''processing'' ''9.9.9.9'' c \<or>
                         callRedisKey c \<noteq> redisKeyOf ''processing'' ''9.9.9.9'') mixedTraffic"
    by (simp add: mixedTraffic_def forCounter_def callRedisKey_def redisKeyOf_def sanitizeIP_def
        extractClientIP_def forwardedRequest_def trim_def isWhiteSpace_def)
  have ip1: "extractClientIP (forwardedRequest ''9.9.9.9'') = ''9.9.9.9''"
    by (simp add: extractClientIP_def forwardedRequest_def trim_def isWhiteSpace_def)
  have mem: "map remaining (run_in_memory emptyEnv
      (filter (forCounter ''processing'' ''9.9.9.9'') mixedTraffic) Map.empty) = [9, 8]"
    by (simp add: mixedTraffic_own xff_example ip1 checkInMemoryRateLimit_def Let_def
        maxRequestsOf_def default_limits RATE_LIMIT_WINDOW_def)
  have red: "map remaining (run_redis emptyEnv
      (filter (forCounter ''processing'' ''9.9.9.9'') mixedTraffic) redisState) = [9, 8]"
    by (simp add: mixedTraffic_own xff_example ip1 checkRedisRateLimit_def checkRedisTry_def
        redisState_def initialState_def noFaults_def incr_def expire_def isExpired_def
        keepExpiry_def Let_def maxRequestsOf_def default_limits RATE_LIMIT_WINDOW_def)
  show ?thesis
    using counters_are_isolated [OF a b, of "''9.9.9.9''" emptyEnv Map.empty redisState] c mem red
    by simp
qed

text \<open>Under Redis the identities \<^verbatim>\<open>1-2-3-4\<close> and \<^verbatim>\<open>1.2.3.4\<close> share a key: after a request
  of the first, the first request of the second has 8 requests remaining, not 9.\<close>

theorem sanitised_identities_share_a_counter:
  "remaining (run_redis emptyEnv collidingTraffic redisState ! 1) = 8 \<and>
   remaining (run_redis emptyEnv (filter (forCounter ''processing'' ''1.2.3.4'') collidingTraffic)
      redisState ! 0) = 9"
proof -
  have ip1: "extractClientIP (forwardedRequest ''1-2-3-4'') = ''1-2-3-4''"
    by (simp add: extractClientIP_def forwardedRequest_def trim_def isWhiteSpace_def)
  have ip2: "extractClientIP (forwardedRequest ''1.2.3.4'') = ''1.2.3.4''"
    by (simp add: extractClientIP_def forwardedRequest_def trim_def isWhiteSpace_def)
  have f: "filter (forCounter ''processing'' ''1.2.3.4'') collidingTraffic =
      [Call ''processing'' 1001 (forwardedRequest ''1.2.3.4'') noFaults]"
    by (simp add: collidingTraffic_def forCounter_def ip1 ip2)
  have k: "redisKeyOf ''processing'' ''1-2-3-4'' = redisKeyOf ''processing'' ''1.2.3.4''"
    by (simp add: redisKeyOf_def sanitizeIP_def)
  have one: "remaining (run_redis emptyEnv
      [Call ''processing'' 1001 (forwardedRequest ''1.2.3.4'') noFaults] redisState ! 0) = 9"
    by (simp add: ip2 checkRedisRateLimit_def checkRedisTry_def
        redisState_def initialState_def noFaults_def incr_def expire_def isExpired_def
        keepExpiry_def Let_def maxRequestsOf_def default_limits RATE_LIMIT_WINDOW_def)
  have two: "remaining (run_redis emptyEnv collidingTraffic redisState ! 1) = 8"
    by (simp add: collidingTraffic_def ip1 ip2 k checkRedisRateLimit_def checkRedisTry_def
        redisState_def initialState_def noFaults_def incr_def expire_def isExpired_def
        keepExpiry_def Let_def maxRequestsOf_def default_limits RATE_LIMIT_WINDOW_def)
  show ?thesis unfolding f by (rule conjI [OF two one])
qed

text \<open>
  Claim C4. If a step of the middleware throws (identity extraction, counter lookup or
  decision), the middleware catches the error and calls \<^verbatim>\<open>next()\<close>; on this path it sets
  no status and no body of its own (so no 429), only the limit header.
\<close>

theorem internal_fault_fails_open:
  assumes "fault = Some s"
    and "createRateLimiter limiterType e remote now rf fault req res st = (res', st')"
  shows "next_called res' \<and> status res' = status res \<and> body res' = body res \<and>
         res_headers res' =
           (res_headers res)(''X-RateLimit-Limit'' \<mapsto> maxRequestsOf e limiterType)"
proof (cases s)
  case IDENTIFY
  then show ?thesis
    using assms by (auto simp: createRateLimiter_def rateLimiterTry_def Let_def setHeader_def)
next
  case LOOKUP
  then show ?thesis
    using assms by (auto simp: createRateLimiter_def rateLimiterTry_def Let_def setHeader_def)
next
  case DECIDE
  then show ?thesis
    using assms
    by (auto simp: createRateLimiter_def rateLimiterTry_def Let_def setHeader_def split_beta)
qed

theorem internal_fault_fails_open_witness:
  "next_called (fst (createRateLimiter ''processing'' emptyEnv Map.empty 1000 noFaults
      (Some LOOKUP) (forwardedRequest ''9.9.9.9, 10.0.0.1'') emptyResponse initialState)) \<and>
   status (fst (createRateLimiter ''processing'' emptyEnv Map.empty 1000 noFaults
      (Some LOOKUP) (forwardedRequest ''9.9.9.9, 10.0.0.1'') emptyResponse initialState)) = None"
proof -
  let ?g = "createRateLimiter ''processing'' emptyEnv Map.empty 1000 noFaults
      (Some LOOKUP) (forwardedRequest ''9.9.9.9, 10.0.0.1'') emptyResponse initialState"
  have "?g = (fst ?g, snd ?g)" by simp
  from internal_fault_fails_open [OF refl this]
  show ?thesis by (simp add: emptyResponse_def)
qed

text \<open>
  Claim C5. Whenever a request is denied, the \<^verbatim>\<open>retryAfter\<close> value returned (and sent as the
  \<^verbatim>\<open>Retry-After\<close> header and the \<^verbatim>\<open>retryAfter\<close> body field) equals
  \<open>ceil((resetTime - now) / 1000)\<close> and is at least 1 second, under both backends. The code
  breaks this twice. The in-memory backend computes the ceiling (lemma
  \<open>retry_after_in_memory\<close>) but has no floor: a request denied exactly at \<^verbatim>\<open>resetTime\<close> gets
  \<^verbatim>\<open>retryAfter\<close> 0. The Redis backend computes \<open>60 - floor((now mod 60000) / 1000)\<close> instead:
  a request denied at \<open>now = 0\<close> gets 60 seconds where the ceiling is 3600.
\<close>

theorem retry_after_zero_and_not_ceil:
  "\<not> allowed (fst (checkInMemoryRateLimit emptyEnv 1000 ''9.9.9.9'' ''processing'' (atLimit 1000))) \<and>
   retryAfter (fst (checkInMemoryRateLimit emptyEnv 1000 ''9.9.9.9'' ''processing'' (atLimit 1000)))
     = Some 0 \<and>
   status (fst (createRateLimiter ''processing'' emptyEnv Map.empty 1000 noFaults None
      (forwardedRequest ''9.9.9.9, 10.0.0.1'') emptyResponse
      (memoryState\<lparr>inMemoryRateLimitMap := atLimit 1000\<rparr>))) = Some 429 \<and>
   res_headers (fst (createRateLimiter ''processing'' emptyEnv Map.empty 1000 noFaults None
      (forwardedRequest ''9.9.9.9, 10.0.0.1'') emptyResponse
      (memoryState\<lparr>inMemoryRateLimitMap := atLimit 1000\<rparr>))) ''Retry-After'' = Some 0 \<and>
   \<not> allowed (fst (checkRedisRateLimit emptyEnv 0 noFaults ''9.9.9.9'' ''processing'' redisAtLimit)) \<and>
   retryAfter (fst (checkRedisRateLimit emptyEnv 0 noFaults ''9.9.9.9'' ''processing'' redisAtLimit))
     = Some 60 \<and>
   ceilSeconds (rate_result.resetTime
     (fst (checkRedisRateLimit emptyEnv 0 noFaults ''9.9.9.9'' ''processing'' redisAtLimit)) - 0) = 3600 \<and>
   res_headers (fst (createRateLimiter ''processing'' emptyEnv Map.empty 0 noFaults None
      (forwardedRequest ''9.9.9.9, 10.0.0.1'') emptyResponse redisAtLimit)) ''Retry-After'' = Some 60"
proof -
  let ?st = "memoryState\<lparr>inMemoryRateLimitMap := atLimit 1000\<rparr>"
  let ?g = "createRateLimiter ''processing'' emptyEnv Map.empty 1000 noFaults None
      (forwardedRequest ''9.9.9.9, 10.0.0.1'') emptyResponse ?st"
  let ?h = "createRateLimiter ''processing'' emptyEnv Map.empty 0 noFaults None
      (forwardedRequest ''9.9.9.9, 10.0.0.1'') emptyResponse redisAtLimit"
  let ?k = "checkRedisRateLimit emptyEnv 0 noFaults ''9.9.9.9'' ''processing'' redisAtLimit"
  have m: "checkInMemoryRateLimit emptyEnv 1000 ''9.9.9.9'' ''processing'' (atLimit 1000) =
      (\<lparr>allowed = False, remaining = 0, resetTime = 1000, retryAfter = Some 0\<rparr>, atLimit 1000)"
    by (simp add: checkInMemoryRateLimit_def atLimit_def maxRequestsOf_def default_limits
        ceilSeconds_def)
  have r: "fst ?k = \<lparr>allowed = False, remaining = 0, resetTime = 3600000, retryAfter = Some 60\<rparr>"
    by (simp add: checkRedisRateLimit_def checkRedisTry_def redisAtLimit_def redisState_def
        initialState_def noFaults_def incr_def isExpired_def Let_def maxRequestsOf_def
        default_limits RATE_LIMIT_WINDOW_def)
  have st: "rateLimiterInitialized ?st" "\<not> useRedis ?st"
    by (simp_all add: memoryState_def initialState_def)
  have km: "checkInMemoryRateLimit emptyEnv 1000 (extractClientIP (forwardedRequest ''9.9.9.9, 10.0.0.1''))
      ''processing'' (inMemoryRateLimitMap ?st) =
      (\<lparr>allowed = False, remaining = 0, resetTime = 1000, retryAfter = Some 0\<rparr>, atLimit 1000)"
    using m by (simp add: xff_example)
  have g: "?g = (fst ?g, snd ?g)" by simp
  note G = middleware_in_memory [OF st km g]
  have rs: "rateLimiterInitialized redisAtLimit" "useRedis redisAtLimit"
      "redisClient redisAtLimit =
         Some [redisKeyOf ''processing'' ''9.9.9.9'' \<mapsto> \<lparr>val = 10, expiresAt = Some 3600000\<rparr>]"
    by (simp_all add: redisAtLimit_def redisState_def initialState_def)
  have kr: "checkRedisRateLimit emptyEnv 0 noFaults (extractClientIP (forwardedRequest ''9.9.9.9, 10.0.0.1''))
      ''processing'' redisAtLimit = (fst ?k, snd ?k)"
    by (simp add: xff_example)
  have h: "?h = (fst ?h, snd ?h)" by simp
  note H = middleware_redis [OF rs kr h]
  show ?thesis using G H by (simp add: m r ceilSeconds_def)
qed

text \<open>
  Claim C6, as the code has it. \<^verbatim>\<open>extractClientIP\<close> returns the leftmost comma-separated
  entry of a non-empty \<^verbatim>\<open>x-forwarded-for\<close> header, trimmed of white space (so
  \<^verbatim>\<open>"9.9.9.9, 10.0.0.1"\<close> resolves to \<^verbatim>\<open>"9.9.9.9"\<close>); with the header absent or empty it
  returns \<^verbatim>\<open>req.ip\<close> if that is non-empty, otherwise the connection's remote address if that
  is non-empty, otherwise \<^verbatim>\<open>"unknown"\<close>. The result is empty exactly when the header is
  non-empty and its leftmost entry is blank. Trimming removes exactly the white space at
  both ends. The function is total on requests whose header values are strings.
\<close>

theorem extractClientIP_resolution:
  "(headers req ''x-forwarded-for'' = Some (entry @ CHR '','' # rest) \<and> CHR '','' \<notin> set entry
      \<longrightarrow> extractClientIP req = trim entry) \<and>
   (headers req ''x-forwarded-for'' = Some x \<and> x \<noteq> [] \<and> CHR '','' \<notin> set x
      \<longrightarrow> extractClientIP req = trim x) \<and>
   (headers req ''x-forwarded-for'' \<in> {None, Some []} \<and> ip req = Some a \<and> a \<noteq> []
      \<longrightarrow> extractClientIP req = a) \<and>
   (headers req ''x-forwarded-for'' \<in> {None, Some []} \<and> ip req \<in> {None, Some []} \<and>
    connection req = Some sock \<and> remoteAddress sock = Some b \<and> b \<noteq> []
      \<longrightarrow> extractClientIP req = b) \<and>
   (headers req ''x-forwarded-for'' \<in> {None, Some []} \<and> ip req \<in> {None, Some []} \<and>
    (connection req = None \<or>
     (\<exists>sock. connection req = Some sock \<and> remoteAddress sock \<in> {None, Some []}))
      \<longrightarrow> extractClientIP req = ''unknown'') \<and>
   (trim entry \<noteq> [] \<longrightarrow>
      \<not> isWhiteSpace (hd (trim entry)) \<and> \<not> isWhiteSpace (last (trim entry)) \<and>
      (\<exists>a b. entry = a @ trim entry @ b \<and> list_all isWhiteSpace a \<and> list_all isWhiteSpace b)) \<and>
   (extractClientIP req = [] \<longleftrightarrow>
      (\<exists>h. headers req ''x-forwarded-for'' = Some h \<and> h \<noteq> [] \<and>
           (\<forall>c \<in> set (takeWhile (\<lambda>c. c \<noteq> CHR '','') h). isWhiteSpace c))) \<and>
   extractClientIP (forwardedRequest ''9.9.9.9, 10.0.0.1'') = ''9.9.9.9''"
proof (intro conjI impI)
  assume "trim entry \<noteq> []"
  then show "\<not> isWhiteSpace (hd (trim entry))" "\<not> isWhiteSpace (last (trim entry))"
    using trim_ends by simp_all
next
  show "\<exists>a b. entry = a @ trim entry @ b \<and> list_all isWhiteSpace a \<and> list_all isWhiteSpace b"
    using trim_strips [of entry] by (simp add: list_all_iff)
next
  assume "headers req ''x-forwarded-for'' = Some (entry @ CHR '','' # rest) \<and> CHR '','' \<notin> set entry"
  then show "extractClientIP req = trim entry"
    by (simp add: extractClientIP_def takeWhile_first_entry)
next
  assume "headers req ''x-forwarded-for'' = Some x \<and> x \<noteq> [] \<and> CHR '','' \<notin> set x"
  then show "extractClientIP req = trim x"
    by (simp add: extractClientIP_def takeWhile_only_entry)
next
  assume "headers req ''x-forwarded-for'' \<in> {None, Some []} \<and> ip req = Some a \<and> a \<noteq> []"
  then show "extractClientIP req = a"
    by (auto simp: extractClientIP_def orElse_def)
next
  assume "headers req ''x-forwarded-for'' \<in> {None, Some []} \<and> ip req \<in> {None, Some []} \<and>
    connection req = Some sock \<and> remoteAddress sock = Some b \<and> b \<noteq> []"
  then show "extractClientIP req = b"
    by (auto simp: extractClientIP_def orElse_def)
next
  assume "headers req ''x-forwarded-for'' \<in> {None, Some []} \<and> ip req \<in> {None, Some []} \<and>
    (connection req = None \<or>
     (\<exists>sock. connection req = Some sock \<and> remoteAddress sock \<in> {None, Some []}))"
  then show "extractClientIP req = ''unknown''"
    by (auto simp: extractClientIP_def orElse_def)
next
  show "extractClientIP req = [] \<longleftrightarrow>
      (\<exists>h. headers req ''x-forwarded-for'' = Some h \<and> h \<noteq> [] \<and>
           (\<forall>c \<in> set (takeWhile (\<lambda>c. c \<noteq> CHR '','') h). isWhiteSpace c))"
    by (auto simp: extractClientIP_def orElse_def Let_def trim_empty_iff split: option.splits)
next
  show "extractClientIP (forwardedRequest ''9.9.9.9, 10.0.0.1'') = ''9.9.9.9''"
    by (rule xff_example)
qed

theorem extractClientIP_resolution_witness:
  "extractClientIP (forwardedRequest ''203.0.113.7 ,10.0.0.1'') = ''203.0.113.7'' \<and>
   extractClientIP \<lparr>headers = Map.empty, ip = Some ''10.1.1.1'', connection = None\<rparr> = ''10.1.1.1'' \<and>
   extractClientIP \<lparr>headers = Map.empty, ip = None,
     connection = Some \<lparr>remoteAddress = Some ''10.2.2.2''\<rparr>\<rparr> = ''10.2.2.2'' \<and>
   extractClientIP \<lparr>headers = Map.empty, ip = None, connection = None\<rparr> = ''unknown''"
  using extractClientIP_resolution [of "forwardedRequest ''203.0.113.7 ,10.0.0.1''" "''203.0.113.7 ''"
      "''10.0.0.1''"]
    extractClientIP_resolution [of "\<lparr>headers = Map.empty, ip = Some ''10.1.1.1'', connection = None\<rparr>"
      _ _ _ "''10.1.1.1''"]
    extractClientIP_resolution [of "\<lparr>headers = Map.empty, ip = None,
      connection = Some \<lparr>remoteAddress = Some ''10.2.2.2''\<rparr>\<rparr>" _ _ _ _ "\<lparr>remoteAddress = Some ''10.2.2.2''\<rparr>"
      "''10.2.2.2''"]
    extractClientIP_resolution [of "\<lparr>headers = Map.empty, ip = None, connection = None\<rparr>"]
  by (simp add: forwardedRequest_def trim_def isWhiteSpace_def)

text \<open>A header whose leftmost entry is blank gives the empty string, also when \<^verbatim>\<open>req.ip\<close> is
  known.\<close>

theorem extractClientIP_blank_entry:
  "extractClientIP \<lparr>headers = [''x-forwarded-for'' \<mapsto> '', 10.0.0.1''], ip = Some ''10.1.1.1'',
     connection = None\<rparr> = []"
  by (simp add: extractClientIP_def trim_def)




text \<open>
  Claim C8. A configured limit that is non-numeric or non-positive is replaced by the
  namespace default (10 for processing, 100 for health). The code does so for a value
  without a leading number and for zero, but keeps a negative number: with
  \<^verbatim>\<open>RATE_LIMIT_PER_HOUR=-5\<close> the processing limit is \<open>-5\<close>, and with
  \<^verbatim>\<open>HEALTH_CHECK_RATE_LIMIT_PER_HOUR=-5\<close> the health limit is \<open>-5\<close>; under that limit the
  Redis backend denies the first request of an identity.
\<close>

theorem negative_limit_is_kept:
  "PROCESSING_RATE_LIMIT_MAX_REQUESTS (emptyEnv\<lparr>RATE_LIMIT_PER_HOUR := Some ''-5''\<rparr>) = - 5 \<and>
   HEALTH_CHECK_RATE_LIMIT_MAX_REQUESTS
     (emptyEnv\<lparr>HEALTH_CHECK_RATE_LIMIT_PER_HOUR := Some ''-5''\<rparr>) = - 5 \<and>
   \<not> allowed (fst (checkRedisRateLimit (emptyEnv\<lparr>RATE_LIMIT_PER_HOUR := Some ''-5''\<rparr>) 1000
      noFaults ''9.9.9.9'' ''processing'' redisState))"
proof -
  let ?e = "emptyEnv\<lparr>RATE_LIMIT_PER_HOUR := Some ''-5''\<rparr>"
  have p: "PROCESSING_RATE_LIMIT_MAX_REQUESTS ?e = - 5"
    by (simp add: PROCESSING_RATE_LIMIT_MAX_REQUESTS_def parseIntEnv_def parseInt_minus_five
        orDefault_def emptyEnv_def)
  have h: "HEALTH_CHECK_RATE_LIMIT_MAX_REQUESTS
      (emptyEnv\<lparr>HEALTH_CHECK_RATE_LIMIT_PER_HOUR := Some ''-5''\<rparr>) = - 5"
    by (simp add: HEALTH_CHECK_RATE_LIMIT_MAX_REQUESTS_def parseIntEnv_def parseInt_minus_five
        orDefault_def emptyEnv_def)
  have d: "\<not> allowed (fst (checkRedisRateLimit ?e 1000 noFaults ''9.9.9.9'' ''processing'' redisState))"
    by (simp add: checkRedisRateLimit_def checkRedisTry_def redisState_def initialState_def
        noFaults_def incr_def Let_def maxRequestsOf_def p)
  show ?thesis using p h d by blast
qed

text \<open>
  Claim C9 speaks about requests that are in flight at the same time. The functions above
  are sequential: \<^verbatim>\<open>checkInMemoryRateLimit\<close> reads and writes the map without an \<^verbatim>\<open>await\<close> in
  between, and what that means for concurrent callers is a property of the event loop that
  runs it, which this embedding does not represent. No theorem is stated for it.
\<close>

text \<open>
  Claim C10. \<^verbatim>\<open>getRateLimitStatus\<close> never returns a status that contains the limit. In
  Redis mode it returns an object \<^verbatim>\<open>{error: string}\<close>, because the \<^verbatim>\<open>ReferenceError\<close> of the
  undeclared name \<^verbatim>\<open>RATE_LIMIT_MAX_REQUESTS\<close> is caught; in in-memory mode the
  \<^verbatim>\<open>ReferenceError\<close> is thrown to the caller.
\<close>

theorem getRateLimitStatus_never_reports_limit:
  "(useRedis st \<and> redisClient st \<noteq> None \<longrightarrow>
      (\<exists>msg. fst (getRateLimitStatus e now rf clientIP st) = Inr (ErrorObject msg))) \<and>
   (\<not> (useRedis st \<and> redisClient st \<noteq> None) \<longrightarrow>
      fst (getRateLimitStatus e now rf clientIP st) =
        Inl (ReferenceError ''RATE_LIMIT_MAX_REQUESTS is not defined'')) \<and>
   (\<forall>mode ip' c limit rt.
      fst (getRateLimitStatus e now rf clientIP st) \<noteq> Inr (Status mode ip' c limit rt))"
  by (auto simp: getRateLimitStatus_def resolveNumber_def Let_def split_beta
      split: option.splits)

theorem getRateLimitStatus_never_reports_limit_witness:
  "(\<exists>msg. fst (getRateLimitStatus emptyEnv 1000 noFaults ''9.9.9.9'' redisState) =
      Inr (ErrorObject msg)) \<and>
   fst (getRateLimitStatus emptyEnv 1000 noFaults ''9.9.9.9'' memoryState) =
     Inl (ReferenceError ''RATE_LIMIT_MAX_REQUESTS is not defined'')"
  using getRateLimitStatus_never_reports_limit [of redisState emptyEnv 1000 noFaults "''9.9.9.9''"]
    getRateLimitStatus_never_reports_limit [of memoryState emptyEnv 1000 noFaults "''9.9.9.9''"]
  by (simp add: redisState_def memoryState_def initialState_def)

end
